theory Spec2Isabelle
  imports Main "HOL-Library.AList" "HOL-Library.Char_ord" "HOL-Library.List_Lexorder"
begin

section \<open>Python strings\<close>

text \<open>
  A Python \<open>str\<close> is modelled as a \<open>string\<close> whose characters are the code points
  below 256. \<open>is_space\<close> is \<open>str.isspace\<close> on one such code point: the ASCII
  white space 9..13 and 32, the separators 28..31, NEL (133) and the no-break space (160).
\<close>

definition is_space :: "char \<Rightarrow> bool" where
  "is_space c = ((of_char c :: nat) \<in> set [9, 10, 11, 12, 13, 28, 29, 30, 31, 32, 133, 160])"

text \<open>\<open>s.strip()\<close>: white space removed at both ends.\<close>

definition strip :: "string \<Rightarrow> string" where
  "strip s = rev (dropWhile is_space (rev (dropWhile is_space s)))"

text \<open>\<open>s.split(sep)\<close> for a separator of one character; the result is never empty.\<close>

fun split_on :: "char \<Rightarrow> string \<Rightarrow> string list" where
  "split_on sep [] = [[]]"
| "split_on sep (c # cs) =
     (if c = sep then [] # split_on sep cs
      else (case split_on sep cs of [] \<Rightarrow> [[c]] | p # ps \<Rightarrow> (c # p) # ps))"

text \<open>
  \<open>s.split()\<close> without a separator: the maximal runs of characters that are not
  white space. \<open>split_fields cur s\<close> scans \<open>s\<close> with the field under construction
  \<open>cur\<close> held in reverse.
\<close>

fun split_fields :: "string \<Rightarrow> string \<Rightarrow> string list" where
  "split_fields cur [] = (if cur = [] then [] else [rev cur])"
| "split_fields cur (c # cs) =
     (if is_space c then
        (if cur = [] then split_fields [] cs else rev cur # split_fields [] cs)
      else split_fields (c # cur) cs)"

definition split_ws :: "string \<Rightarrow> string list" where
  "split_ws s = split_fields [] s"

text \<open>\<open>str(n)\<close> for an integer.\<close>

fun str_nat :: "nat \<Rightarrow> string" where
  "str_nat n =
     (if n < 10 then [char_of (48 + n)]
      else str_nat (n div 10) @ [char_of (48 + n mod 10)])"

definition str_int :: "int \<Rightarrow> string" where
  "str_int i = (if i < 0 then CHR ''-'' # str_nat (nat (- i)) else str_nat (nat i))"

section \<open>Data model\<close>

text \<open>
  A Python \<open>dict\<close> is an association list in insertion order; \<open>d[k] = v\<close> is
  \<open>AList.update k v d\<close> (the value is replaced in place when the key is there, the
  pair is appended otherwise) and \<open>k in d\<close> is \<open>has_key d k\<close>.
\<close>

definition has_key :: "('k \<times> 'v) list \<Rightarrow> 'k \<Rightarrow> bool" where
  "has_key d k = (k \<in> fst ` set d)"

text \<open>
  A monitor of the \<open>monitorList\<close> push. The source reads \<open>parent\<close>, \<open>type\<close> and
  \<open>url\<close> with \<open>dict.get\<close> (an absent key is \<open>None\<close>) and \<open>name\<close> by
  subscript (an absent key raises \<open>KeyError\<close>). The key of the push is the monitor's
  identifier; \<open>int(monitor_id)\<close> is taken as done, the key is an \<open>int\<close>.
\<close>

record monitor =
  m_name :: "string option"
  m_url :: "string option"
  m_type :: "string option"
  m_parent :: "int option"

type_synonym directory = "(int \<times> monitor) list"

text \<open>The configuration constants of the script that the modelled code reads.\<close>

record config =
  USERNAME :: string
  PASSWORD :: string
  PARENT_GROUP_ID :: int
  MONITOR_INTERVAL :: int
  MONITOR_RETRY_INTERVAL :: int
  MONITOR_TIMEOUT :: int
  MONITOR_MAX_RETRIES :: int
  MONITOR_MAX_REDIRECTS :: int
  DEFAULT_NOTIFICATION_IDS :: "int list"

text \<open>The payload of the \<open>add\<close> call built by \<open>create_monitor\<close>.\<close>

record monitor_data =
  md_name :: string
  md_type :: string
  md_url :: string
  md_method :: string
  md_interval :: int
  md_retryInterval :: int
  md_timeout :: int
  md_maxretries :: int
  md_maxredirects :: int
  md_resendInterval :: int
  md_active :: bool
  md_parent :: int
  md_notificationIDList :: "(string \<times> bool) list"
  md_accepted_statuscodes :: "string list"
  md_expiryNotification :: bool
  md_ignoreTls :: bool
  md_upsideDown :: bool
  md_packetSize :: int
  md_httpBodyEncoding :: string
  md_conditions :: "string list"
  md_kafkaProducerBrokers :: "string list"
  md_rabbitmqNodes :: "string list"
  md_kafkaProducerSaslOptions :: "(string \<times> string) list"

text \<open>
  The four requests the script emits: \<open>loginByToken\<close> with the token, \<open>login\<close> with
  user name, password and second-factor token, \<open>add\<close> with the payload and
  \<open>deleteMonitor\<close> with the identifier.
\<close>

datatype rpc_call =
  LoginByToken string
| Login string string string
| Add monitor_data
| DeleteMonitor int

text \<open>
  A response of the remote service: the truth value of its \<open>ok\<close>, and the optional
  \<open>msg\<close>, \<open>token\<close> and \<open>monitorID\<close>. Responses and pushes are taken to be
  JSON values of these shapes.
\<close>

record response =
  r_ok :: bool
  r_msg :: "string option"
  r_token :: "string option"
  r_monitorID :: "int option"

text \<open>What \<open>sio.call\<close> does: it returns the response, or raises.\<close>

datatype sio_outcome =
  Returned response
| TimeoutError
| OtherException

text \<open>What the process does that the outside can see, in order.\<close>

datatype action =
  PrintHelp
| Connect
| Call rpc_call
| Disconnect

text \<open>How the process ends early: \<open>sys.exit(n)\<close>, or an uncaught \<open>KeyError\<close>.\<close>

datatype error =
  SystemExit int
| KeyError string

text \<open>
  The mutable state: the token file (\<open>None\<close> when it does not exist), the globals
  \<open>monitor_list\<close>, \<open>authenticated\<close> and \<open>jwt_token\<close>, and the actions so far.
\<close>

record world =
  jwt_file :: "string option"
  monitor_list :: directory
  authenticated :: bool
  jwt_token :: "string option"
  trace :: "action list"

text \<open>
  What the run is given: the domains file (\<open>None\<close> when it does not exist), whether
  \<open>sio.connect\<close> raises, the remote service's answer to a call after the actions so
  far, and the \<open>monitorList\<close> pushes received before the selected mode reads the
  directory.
\<close>

record env =
  domains_file :: "string option"
  connect_fails :: bool
  remote :: "action list \<Rightarrow> rpc_call \<Rightarrow> sio_outcome"
  pushes :: "directory list"

section \<open>Session store\<close>

definition load_jwt :: "world \<Rightarrow> string option" where
  "load_jwt w = (case jwt_file w of Some text \<Rightarrow> Some (strip text) | None \<Rightarrow> None)"

definition save_jwt :: "string \<Rightarrow> world \<Rightarrow> world" where
  "save_jwt token w = w\<lparr>jwt_file := Some token\<rparr>"

definition on_monitor_list :: "directory \<Rightarrow> world \<Rightarrow> world" where
  "on_monitor_list data w = w\<lparr>monitor_list := data\<rparr>"

section \<open>RPC channel\<close>

text \<open>
  \<open>call_with_callback\<close> emits the request and waits. Both \<open>except\<close> clauses
  return \<open>None\<close>; the call is recorded in the trace whatever its outcome.
\<close>

definition call_with_callback :: "env \<Rightarrow> rpc_call \<Rightarrow> world \<Rightarrow> response option \<times> world" where
  "call_with_callback e c w =
     (case remote e (trace w) c of
        Returned response \<Rightarrow> (Some response, w\<lparr>trace := trace w @ [Call c]\<rparr>)
      | TimeoutError \<Rightarrow> (None, w\<lparr>trace := trace w @ [Call c]\<rparr>)
      | OtherException \<Rightarrow> (None, w\<lparr>trace := trace w @ [Call c]\<rparr>))"

text \<open>The test \<open>response and response.get("ok")\<close>.\<close>

fun response_ok :: "response option \<Rightarrow> bool" where
  "response_ok None = False"
| "response_ok (Some r) = r_ok r"

section \<open>Authentication\<close>

text \<open>
  \<open>authenticate\<close> returns \<open>True\<close> (here \<open>Inr ()\<close>) or leaves through
  \<open>sys.exit(1)\<close>. The world is returned in both cases.
\<close>

definition authenticate :: "config \<Rightarrow> env \<Rightarrow> world \<Rightarrow> (error + unit) \<times> world" where
  "authenticate cfg e w0 =
     (let w1 = w0\<lparr>jwt_token := load_jwt w0\<rparr>;
          (by_token, w2) =
            (case jwt_token w1 of
               None \<Rightarrow> (False, w1)
             | Some t \<Rightarrow>
                 if t \<noteq> [] then
                   (let (response, w) = call_with_callback e (LoginByToken t) w1
                    in (response_ok response, w))
                 else (False, w1))
      in if by_token then (Inr (), w2\<lparr>authenticated := True\<rparr>)
         else if USERNAME cfg = [] \<or> PASSWORD cfg = [] then (Inl (SystemExit 1), w2)
         else
           (let (response, w3) = call_with_callback e (Login (USERNAME cfg) (PASSWORD cfg) []) w2
            in if response_ok response then
                 (let w4 = w3\<lparr>authenticated := True\<rparr>
                  in case response of
                       None \<Rightarrow> (Inr (), w4)
                     | Some r \<Rightarrow>
                         (case r_token r of
                            None \<Rightarrow> (Inr (), w4)
                          | Some t \<Rightarrow>
                              if t \<noteq> [] then (Inr (), (save_jwt t w4)\<lparr>jwt_token := Some t\<rparr>)
                              else (Inr (), w4)))
               else (Inl (SystemExit 1), w3)))"

section \<open>Domain file\<close>

text \<open>One turn of the loop of \<open>load_domains\<close> over the lines.\<close>

definition load_line :: "string \<Rightarrow> (string \<times> string) list \<Rightarrow> (string \<times> string) list" where
  "load_line line domains =
     (if strip line = [] then domains
      else (let parts = split_ws line
            in if length parts \<ge> 3 then AList.update (parts ! 0) (parts ! 2) domains
               else domains))"

definition load_domains :: "env \<Rightarrow> error + (string \<times> string) list" where
  "load_domains e =
     (case domains_file e of
        None \<Rightarrow> Inl (SystemExit 1)
      | Some text \<Rightarrow> Inr (fold load_line (split_on (CHR 0x0A) (strip text)) []))"

section \<open>Monitor operations\<close>

text \<open>
  \<open>get_existing_monitors\<close>: the loop over \<open>monitor_list.items()\<close>, building the
  dictionary from name to identifier and URL.
\<close>

fun existing_loop ::
  "config \<Rightarrow> directory \<Rightarrow> (string \<times> int \<times> string) list \<Rightarrow> error + (string \<times> int \<times> string) list"
where
  "existing_loop cfg [] existing = Inr existing"
| "existing_loop cfg ((monitor_id, monitor) # rest) existing =
     (if m_parent monitor = Some (PARENT_GROUP_ID cfg) \<and> m_type monitor = Some ''http'' then
        (case m_name monitor of
           None \<Rightarrow> Inl (KeyError ''name'')
         | Some name \<Rightarrow>
             existing_loop cfg rest
               (AList.update name
                  (monitor_id, case m_url monitor of None \<Rightarrow> [] | Some u \<Rightarrow> u) existing))
      else existing_loop cfg rest existing)"

definition get_existing_monitors :: "config \<Rightarrow> world \<Rightarrow> error + (string \<times> int \<times> string) list" where
  "get_existing_monitors cfg w = existing_loop cfg (monitor_list w) []"

definition notif_list :: "config \<Rightarrow> (string \<times> bool) list" where
  "notif_list cfg = fold (\<lambda>nid d. AList.update (str_int nid) True d) (DEFAULT_NOTIFICATION_IDS cfg) []"

definition monitor_payload :: "config \<Rightarrow> string \<Rightarrow> string \<Rightarrow> monitor_data" where
  "monitor_payload cfg name url =
     \<lparr>md_name = name, md_type = ''http'', md_url = url, md_method = ''GET'',
      md_interval = MONITOR_INTERVAL cfg, md_retryInterval = MONITOR_RETRY_INTERVAL cfg,
      md_timeout = MONITOR_TIMEOUT cfg, md_maxretries = MONITOR_MAX_RETRIES cfg,
      md_maxredirects = MONITOR_MAX_REDIRECTS cfg, md_resendInterval = 0,
      md_active = True, md_parent = PARENT_GROUP_ID cfg,
      md_notificationIDList = notif_list cfg, md_accepted_statuscodes = [''200-299''],
      md_expiryNotification = True, md_ignoreTls = False, md_upsideDown = False,
      md_packetSize = 56, md_httpBodyEncoding = ''json'', md_conditions = [],
      md_kafkaProducerBrokers = [], md_rabbitmqNodes = [],
      md_kafkaProducerSaslOptions = [(''mechanism'', ''None'')]\<rparr>"

definition create_monitor :: "config \<Rightarrow> env \<Rightarrow> string \<Rightarrow> string \<Rightarrow> world \<Rightarrow> bool \<times> world" where
  "create_monitor cfg e name url w =
     (let (response, w') = call_with_callback e (Add (monitor_payload cfg name url)) w
      in (response_ok response, w'))"

definition delete_monitor :: "env \<Rightarrow> int \<Rightarrow> string \<Rightarrow> world \<Rightarrow> bool \<times> world" where
  "delete_monitor e monitor_id name w =
     (let (response, w') = call_with_callback e (DeleteMonitor monitor_id) w
      in (response_ok response, w'))"

section \<open>Commands\<close>

text \<open>What a mode reports when it returns.\<close>

datatype report =
  Synced nat nat
| Listed "(int \<times> string \<times> string) list"
| Preview "(int \<times> string \<times> string) list"
| Removed nat

text \<open>
  The loop of \<open>cmd_sync\<close> over \<open>domains.items()\<close>; \<open>created\<close> is the counter.
  The pause after each call is not modelled.
\<close>

fun sync_loop ::
  "config \<Rightarrow> env \<Rightarrow> (string \<times> int \<times> string) list \<Rightarrow> (string \<times> string) list \<Rightarrow> nat \<Rightarrow> world
     \<Rightarrow> nat \<times> world"
where
  "sync_loop cfg e existing [] created w = (created, w)"
| "sync_loop cfg e existing ((name, url) # rest) created w =
     (if \<not> has_key existing name then
        (let (ok, w') = create_monitor cfg e name url w
         in sync_loop cfg e existing rest (if ok then created + 1 else created) w')
      else sync_loop cfg e existing rest created w)"

definition cmd_sync :: "config \<Rightarrow> env \<Rightarrow> world \<Rightarrow> (error + report) \<times> world" where
  "cmd_sync cfg e w =
     (case load_domains e of
        Inl err \<Rightarrow> (Inl err, w)
      | Inr domains \<Rightarrow>
          (case get_existing_monitors cfg w of
             Inl err \<Rightarrow> (Inl err, w)
           | Inr existing \<Rightarrow>
               (let (created, w') = sync_loop cfg e existing domains 0 w
                in (Inr (Synced created (length domains)), w'))))"

definition cmd_list :: "config \<Rightarrow> env \<Rightarrow> world \<Rightarrow> (error + report) \<times> world" where
  "cmd_list cfg e w =
     (case get_existing_monitors cfg w of
        Inl err \<Rightarrow> (Inl err, w)
      | Inr existing \<Rightarrow>
          (Inr (Listed (map (\<lambda>(name, monitor_id, url). (monitor_id, name, url))
                          (sort_key fst existing))), w))"

text \<open>The loop of \<open>cmd_cleanup_preview\<close> over \<open>existing.items()\<close>.\<close>

fun preview_loop ::
  "(string \<times> string) list \<Rightarrow> (string \<times> int \<times> string) list \<Rightarrow> (int \<times> string \<times> string) list
     \<Rightarrow> (int \<times> string \<times> string) list"
where
  "preview_loop domains [] to_delete = to_delete"
| "preview_loop domains ((name, monitor_id, url) # rest) to_delete =
     (if \<not> has_key domains name then preview_loop domains rest (to_delete @ [(monitor_id, name, url)])
      else preview_loop domains rest to_delete)"

definition cmd_cleanup_preview :: "config \<Rightarrow> env \<Rightarrow> world \<Rightarrow> (error + report) \<times> world" where
  "cmd_cleanup_preview cfg e w =
     (case load_domains e of
        Inl err \<Rightarrow> (Inl err, w)
      | Inr domains \<Rightarrow>
          (case get_existing_monitors cfg w of
             Inl err \<Rightarrow> (Inl err, w)
           | Inr existing \<Rightarrow> (Inr (Preview (preview_loop domains existing [])), w)))"

text \<open>The loop of \<open>cmd_cleanup_confirm\<close> over \<open>existing.items()\<close>.\<close>

fun confirm_loop ::
  "env \<Rightarrow> (string \<times> string) list \<Rightarrow> (string \<times> int \<times> string) list \<Rightarrow> nat \<Rightarrow> world \<Rightarrow> nat \<times> world"
where
  "confirm_loop e domains [] deleted w = (deleted, w)"
| "confirm_loop e domains ((name, monitor_id, url) # rest) deleted w =
     (if \<not> has_key domains name then
        (let (ok, w') = delete_monitor e monitor_id name w
         in confirm_loop e domains rest (if ok then deleted + 1 else deleted) w')
      else confirm_loop e domains rest deleted w)"

definition cmd_cleanup_confirm :: "config \<Rightarrow> env \<Rightarrow> world \<Rightarrow> (error + report) \<times> world" where
  "cmd_cleanup_confirm cfg e w =
     (case load_domains e of
        Inl err \<Rightarrow> (Inl err, w)
      | Inr domains \<Rightarrow>
          (case get_existing_monitors cfg w of
             Inl err \<Rightarrow> (Inl err, w)
           | Inr existing \<Rightarrow>
               (let (deleted, w') = confirm_loop e domains existing 0 w
                in (Inr (Removed deleted), w'))))"

section \<open>Main\<close>

text \<open>The four flags after \<open>parse_args\<close>.\<close>

record args =
  a_sync :: bool
  a_list :: bool
  a_cleanup :: bool
  a_cleanup_confirm :: bool

text \<open>The \<open>if\<close>/\<open>elif\<close> chain of \<open>main\<close>; \<open>None\<close> when no branch is taken.\<close>

definition run_mode :: "config \<Rightarrow> env \<Rightarrow> args \<Rightarrow> world \<Rightarrow> (error + report option) \<times> world" where
  "run_mode cfg e a w =
     (if a_sync a then (let (r, w') = cmd_sync cfg e w in (map_sum id Some r, w'))
      else if a_list a then (let (r, w') = cmd_list cfg e w in (map_sum id Some r, w'))
      else if a_cleanup a then (let (r, w') = cmd_cleanup_preview cfg e w in (map_sum id Some r, w'))
      else if a_cleanup_confirm a then
        (let (r, w') = cmd_cleanup_confirm cfg e w in (map_sum id Some r, w'))
      else (Inr None, w))"

text \<open>
  \<open>main\<close>. \<open>sys.exit\<close> in \<open>authenticate\<close> leaves before the \<open>try\<close>; an exit or an
  exception inside the selected mode passes through \<open>finally\<close>, which disconnects.
  During the pause after authentication the pushes received replace \<open>monitor_list\<close>
  one after the other. Writing the token file and disconnecting are taken to succeed.
\<close>

definition main :: "config \<Rightarrow> env \<Rightarrow> args \<Rightarrow> world \<Rightarrow> (error + report option) \<times> world" where
  "main cfg e a w0 =
     (if \<not> (a_sync a \<or> a_list a \<or> a_cleanup a \<or> a_cleanup_confirm a) then
        (Inl (SystemExit 0), w0\<lparr>trace := trace w0 @ [PrintHelp]\<rparr>)
      else
        (let w1 = w0\<lparr>trace := trace w0 @ [Connect]\<rparr>
         in if connect_fails e then (Inl (SystemExit 1), w1)
            else
              (case authenticate cfg e w1 of
                 (Inl err, w2) \<Rightarrow> (Inl err, w2)
               | (Inr u, w2) \<Rightarrow>
                   (let w3 = fold on_monitor_list (pushes e) w2;
                        (r, w4) = run_mode cfg e a w3
                    in (r, w4\<lparr>trace := trace w4 @ [Disconnect]\<rparr>)))))"

text \<open>The exit status of the process.\<close>

fun exit_status :: "(error + 'a) \<Rightarrow> int" where
  "exit_status (Inl (SystemExit n)) = n"
| "exit_status (Inl (KeyError k)) = 1"
| "exit_status (Inr r) = 0"

section \<open>Vocabulary of the properties\<close>

text \<open>
  \<open>names_line name l\<close>: the line \<open>l\<close> is not blank, has at least three fields, and
  its first field is \<open>name\<close>.
\<close>

definition names_line :: "string \<Rightarrow> string \<Rightarrow> bool" where
  "names_line name l = (strip l \<noteq> [] \<and> length (split_ws l) \<ge> 3 \<and> split_ws l ! 0 = name)"

text \<open>The actions a step added to the trace.\<close>

definition new_actions :: "world \<Rightarrow> world \<Rightarrow> action list" where
  "new_actions w w' = drop (length (trace w)) (trace w')"

section \<open>Example data\<close>

definition nl :: char where
  "nl = CHR 0x0A"

definition example_text :: string where
  "example_text =
     ''a.com x http://old.a.com'' @ [nl] @ ''b.com y http://b.com'' @ [nl] @ [nl] @
     ''short line'' @ [nl] @ ''a.com z http://new.a.com'' @ [nl]"

definition example_response :: response where
  "example_response = \<lparr>r_ok = True, r_msg = None, r_token = Some ''fresh'', r_monitorID = Some 10\<rparr>"

definition example_env :: env where
  "example_env =
     \<lparr>domains_file = Some example_text, connect_fails = False,
      remote = (\<lambda>tr c. Returned example_response), pushes = []\<rparr>"

section \<open>Vocabulary of the authenticator's properties\<close>

fun is_token_login :: "action \<Rightarrow> bool" where
  "is_token_login (Call (LoginByToken t)) = True"
| "is_token_login a = False"

fun is_credential_login :: "action \<Rightarrow> bool" where
  "is_credential_login (Call (Login u p t)) = True"
| "is_credential_login a = False"

text \<open>The token-login call of a run: none when the token file is missing or blank.\<close>

definition token_call :: "world \<Rightarrow> action list" where
  "token_call w =
     (case load_jwt w of
        None \<Rightarrow> []
      | Some t \<Rightarrow> if t = [] then [] else [Call (LoginByToken t)])"

text \<open>A stored token is present and the remote service answers its login with ok.\<close>

definition token_accepted :: "env \<Rightarrow> world \<Rightarrow> bool" where
  "token_accepted e w =
     (case load_jwt w of
        None \<Rightarrow> False
      | Some t \<Rightarrow>
          t \<noteq> [] \<and>
          (case remote e (trace w) (LoginByToken t) of
             Returned r \<Rightarrow> r_ok r
           | TimeoutError \<Rightarrow> False
           | OtherException \<Rightarrow> False))"

definition credentials_configured :: "config \<Rightarrow> bool" where
  "credentials_configured cfg = (USERNAME cfg \<noteq> [] \<and> PASSWORD cfg \<noteq> [])"

definition login_call :: "config \<Rightarrow> rpc_call" where
  "login_call cfg = Login (USERNAME cfg) (PASSWORD cfg) []"

text \<open>What \<open>sio.call\<close> does on the credential login, which follows the token call.\<close>

definition login_reply :: "config \<Rightarrow> env \<Rightarrow> world \<Rightarrow> sio_outcome" where
  "login_reply cfg e w = remote e (trace w @ token_call w) (login_call cfg)"

text \<open>
  The world after the token phase and after the credential-login call, and the outcome of
  the credential phase; \<open>authenticate_eq\<close> below shows that \<open>authenticate\<close> is
  composed of them.
\<close>

definition after_token :: "world \<Rightarrow> world" where
  "after_token w = w\<lparr>jwt_token := load_jwt w, trace := trace w @ token_call w\<rparr>"

definition after_login :: "config \<Rightarrow> world \<Rightarrow> world" where
  "after_login cfg w = (after_token w)\<lparr>trace := trace w @ token_call w @ [Call (login_call cfg)]\<rparr>"

definition credential_phase :: "config \<Rightarrow> env \<Rightarrow> world \<Rightarrow> (error + unit) \<times> world" where
  "credential_phase cfg e w =
     (if \<not> credentials_configured cfg then (Inl (SystemExit 1), after_token w)
      else
        (case login_reply cfg e w of
           Returned r \<Rightarrow>
             if r_ok r then
               (Inr (),
                case r_token r of
                  None \<Rightarrow> (after_login cfg w)\<lparr>authenticated := True\<rparr>
                | Some t \<Rightarrow>
                    if t \<noteq> [] then
                      (after_login cfg w)\<lparr>authenticated := True, jwt_file := Some t, jwt_token := Some t\<rparr>
                    else (after_login cfg w)\<lparr>authenticated := True\<rparr>)
             else (Inl (SystemExit 1), after_login cfg w)
         | TimeoutError \<Rightarrow> (Inl (SystemExit 1), after_login cfg w)
         | OtherException \<Rightarrow> (Inl (SystemExit 1), after_login cfg w)))"

section \<open>Example runs of the authenticator\<close>

definition example_cfg :: config where
  "example_cfg =
     \<lparr>USERNAME = ''admin'', PASSWORD = ''secret'', PARENT_GROUP_ID = 1,
      MONITOR_INTERVAL = 60, MONITOR_RETRY_INTERVAL = 60, MONITOR_TIMEOUT = 30,
      MONITOR_MAX_RETRIES = 1, MONITOR_MAX_REDIRECTS = 10, DEFAULT_NOTIFICATION_IDS = [1]\<rparr>"

definition start_world :: "string option \<Rightarrow> world" where
  "start_world file =
     \<lparr>jwt_file = file, monitor_list = [], authenticated = False, jwt_token = None, trace = []\<rparr>"

definition rejected_response :: response where
  "rejected_response =
     \<lparr>r_ok = False, r_msg = Some ''expired'', r_token = None, r_monitorID = None\<rparr>"

text \<open>A remote service that rejects every token and accepts everything else.\<close>

definition fallback_env :: env where
  "fallback_env =
     \<lparr>domains_file = Some example_text, connect_fails = False,
      remote = (\<lambda>tr c. case c of LoginByToken t \<Rightarrow> Returned rejected_response
                         | Login u p t \<Rightarrow> Returned example_response
                         | Add md \<Rightarrow> Returned example_response
                         | DeleteMonitor i \<Rightarrow> Returned example_response),
      pushes = []\<rparr>"

section \<open>Vocabulary of the reconciler's properties\<close>

text \<open>The filtering predicate: the monitor is under the configured group and is an HTTP monitor.\<close>

definition managed :: "config \<Rightarrow> monitor \<Rightarrow> bool" where
  "managed cfg m = (m_parent m = Some (PARENT_GROUP_ID cfg) \<and> m_type m = Some ''http'')"

definition filtered :: "config \<Rightarrow> directory \<Rightarrow> directory" where
  "filtered cfg M = filter (\<lambda>p. managed cfg (snd p)) M"

text \<open>
  A directory of the data model: every monitor that passes the filter has a name. The
  entry \<open>get_existing_monitors\<close> makes of such a monitor is \<open>entry_of\<close>.
\<close>

definition named :: "config \<Rightarrow> directory \<Rightarrow> bool" where
  "named cfg M = list_all (\<lambda>p. m_name (snd p) \<noteq> None) (filtered cfg M)"

definition entry_of :: "int \<times> monitor \<Rightarrow> string \<times> int \<times> string" where
  "entry_of p =
     (case m_name (snd p) of None \<Rightarrow> [] | Some n \<Rightarrow> n,
      fst p,
      case m_url (snd p) of None \<Rightarrow> [] | Some u \<Rightarrow> u)"

definition managed_names :: "config \<Rightarrow> directory \<Rightarrow> string list" where
  "managed_names cfg M = map (\<lambda>p. fst (entry_of p)) (filtered cfg M)"

text \<open>The create-set and the delete-set of the reconciliation plan.\<close>

definition create_set :: "(string \<times> string) list \<Rightarrow> (string \<times> int \<times> string) list \<Rightarrow> (string \<times> string) list" where
  "create_set domains existing = filter (\<lambda>d. \<not> has_key existing (fst d)) domains"

definition delete_set :: "(string \<times> string) list \<Rightarrow> (string \<times> int \<times> string) list \<Rightarrow> (int \<times> string \<times> string) list" where
  "delete_set domains existing =
     map (\<lambda>x. (fst (snd x), fst x, snd (snd x))) (filter (\<lambda>x. \<not> has_key domains (fst x)) existing)"

definition create_call :: "config \<Rightarrow> string \<times> string \<Rightarrow> action" where
  "create_call cfg d = Call (Add (monitor_payload cfg (fst d) (snd d)))"

definition delete_call :: "int \<times> string \<times> string \<Rightarrow> action" where
  "delete_call x = Call (DeleteMonitor (fst x))"

text \<open>The name a create call is for, the identifier a delete call is for.\<close>

fun created_name :: "action \<Rightarrow> string option" where
  "created_name (Call (Add md)) = Some (md_name md)"
| "created_name a = None"

fun deleted_id :: "action \<Rightarrow> int option" where
  "deleted_id (Call (DeleteMonitor i)) = Some i"
| "deleted_id a = None"

text \<open>
  The remote service is not part of the script. Its effect on the directory when it
  accepts an \<open>add\<close> is taken to be: the monitor sent is stored under a new identifier.
\<close>

definition stored_monitor :: "monitor_data \<Rightarrow> monitor" where
  "stored_monitor md =
     \<lparr>m_name = Some (md_name md), m_url = Some (md_url md), m_type = Some (md_type md),
      m_parent = Some (md_parent md)\<rparr>"

definition after_creates :: "directory \<Rightarrow> (int \<times> monitor_data) list \<Rightarrow> directory" where
  "after_creates M news = fold (\<lambda>p. AList.update (fst p) (stored_monitor (snd p))) news M"

fun created_payload :: "action \<Rightarrow> monitor_data option" where
  "created_payload (Call (Add md)) = Some md"
| "created_payload a = None"

definition created_payloads :: "action list \<Rightarrow> monitor_data list" where
  "created_payloads acts = List.map_filter created_payload acts"

text \<open>The filtered monitors whose name is not a key of the domain mapping.\<close>

definition obsolete :: "config \<Rightarrow> (string \<times> string) list \<Rightarrow> directory \<Rightarrow> (int \<times> string \<times> string) list" where
  "obsolete cfg domains M =
     map (\<lambda>p. (fst p, fst (entry_of p), snd (snd (entry_of p))))
       (filter (\<lambda>p. \<not> has_key domains (fst (entry_of p))) (filtered cfg M))"

section \<open>Example directory\<close>

definition example_monitor :: "string \<Rightarrow> string \<Rightarrow> string \<Rightarrow> int \<Rightarrow> monitor" where
  "example_monitor name url type parent =
     \<lparr>m_name = Some name, m_url = Some url, m_type = Some type, m_parent = Some parent\<rparr>"

definition example_directory :: directory where
  "example_directory =
     [(1, example_monitor ''a.com'' ''http://other.a.com'' ''http'' 1),
      (2, example_monitor ''c.com'' ''http://c.com'' ''http'' 1),
      (3, example_monitor ''b.com'' ''http://b.com'' ''http'' 2),
      (4, example_monitor ''b.com'' ''http://b.com'' ''ping'' 1)]"

definition example_world :: world where
  "example_world =
     \<lparr>jwt_file = None, monitor_list = example_directory, authenticated = True,
      jwt_token = None, trace = []\<rparr>"

text \<open>The example directory after the remote service stored a monitor for \<open>b.com\<close>.\<close>

definition second_world :: world where
  "second_world =
     example_world\<lparr>monitor_list :=
       example_directory @ [(10, example_monitor ''b.com'' ''http://b.com'' ''http'' 1)]\<rparr>"

text \<open>The directory with the URL of every monitor replaced.\<close>

definition with_urls :: "(int \<Rightarrow> monitor \<Rightarrow> string option) \<Rightarrow> directory \<Rightarrow> directory" where
  "with_urls f M = map (\<lambda>p. (fst p, (snd p)\<lparr>m_url := f (fst p) (snd p)\<rparr>)) M"

text \<open>An entry of the name-indexed dictionary, or of the delete-set, without its URL.\<close>

definition name_and_id :: "string \<times> int \<times> string \<Rightarrow> string \<times> int" where
  "name_and_id x = (fst x, fst (snd x))"

definition id_and_name :: "int \<times> string \<times> string \<Rightarrow> int \<times> string" where
  "id_and_name x = (fst x, fst (snd x))"

text \<open>The example world with the URL of every monitor removed.\<close>

definition blank_urls_world :: world where
  "blank_urls_world =
     example_world\<lparr>monitor_list := with_urls (\<lambda>i m. None) (monitor_list example_world)\<rparr>"

text \<open>Two runs of a mode end alike: the same result and the same calls.\<close>

definition same_run :: "world \<Rightarrow> (error + report) \<times> world \<Rightarrow> world \<Rightarrow> (error + report) \<times> world \<Rightarrow> bool" where
  "same_run w1 r1 w2 r2 = (fst r1 = fst r2 \<and> new_actions w1 (snd r1) = new_actions w2 (snd r2))"

text \<open>The world whose directory holds the filtered monitors only.\<close>

definition filtered_world :: "config \<Rightarrow> world \<Rightarrow> world" where
  "filtered_world cfg w = w\<lparr>monitor_list := filtered cfg (monitor_list w)\<rparr>"

text \<open>The example environment with a remote service that never answers.\<close>

definition timeout_env :: env where
  "timeout_env = example_env\<lparr>remote := (\<lambda>tr c. TimeoutError)\<rparr>"

section \<open>Vocabulary of the dispatcher's properties\<close>

text \<open>
  The world once the connection attempt is made, and the world in which the selected mode
  starts: after authentication and the pushes received.
\<close>

definition connected :: "world \<Rightarrow> world" where
  "connected w = w\<lparr>trace := trace w @ [Connect]\<rparr>"

definition ready :: "config \<Rightarrow> env \<Rightarrow> world \<Rightarrow> world" where
  "ready cfg e w = fold on_monitor_list (pushes e) (snd (authenticate cfg e (connected w)))"

text \<open>A create or delete call.\<close>

fun is_mutation :: "action \<Rightarrow> bool" where
  "is_mutation (Call (Add md)) = True"
| "is_mutation (Call (DeleteMonitor i)) = True"
| "is_mutation a = False"

text \<open>Example invocations, and an environment without a domains file.\<close>

definition no_flags :: args where
  "no_flags = \<lparr>a_sync = False, a_list = False, a_cleanup = False, a_cleanup_confirm = False\<rparr>"

definition sync_flag :: args where
  "sync_flag = \<lparr>a_sync = True, a_list = False, a_cleanup = False, a_cleanup_confirm = False\<rparr>"

definition all_flags :: args where
  "all_flags = \<lparr>a_sync = True, a_list = True, a_cleanup = True, a_cleanup_confirm = True\<rparr>"

definition missing_env :: env where
  "missing_env = example_env\<lparr>domains_file := None\<rparr>"

text \<open>
  The filtered monitors that no later filtered monitor of the same name follows in the
  directory: the dictionary is indexed by name, so a later monitor takes the entry of an
  earlier one of the same name.
\<close>

definition effective :: "config \<Rightarrow> directory \<Rightarrow> directory" where
  "effective cfg M =
     filter (\<lambda>p. p = last (filter (\<lambda>q. fst (entry_of q) = fst (entry_of p)) (filtered cfg M)))
       (filtered cfg M)"

text \<open>A directory in which two monitors of the group bear the same name.\<close>

definition duplicate_directory :: directory where
  "duplicate_directory =
     [(5, example_monitor ''x.com'' ''http://x.com'' ''http'' 1),
      (6, example_monitor ''y.com'' ''http://y.com'' ''http'' 1),
      (7, example_monitor ''x.com'' ''http://x.com'' ''http'' 1)]"

definition duplicate_world :: world where
  "duplicate_world =
     \<lparr>jwt_file = None, monitor_list = duplicate_directory, authenticated = True,
      jwt_token = None, trace = []\<rparr>"

section \<open>The domain file\<close>

lemma load_line_keys_distinct: "distinct (map fst d) \<Longrightarrow> distinct (map fst (load_line l d))"
  by (simp add: load_line_def Let_def distinct_update)

lemma fold_load_line_distinct:
  "distinct (map fst d) \<Longrightarrow> distinct (map fst (fold load_line ls d))"
  by (induction ls arbitrary: d) (simp_all add: load_line_keys_distinct)

lemma load_line_hit:
  "names_line name l \<Longrightarrow> map_of (load_line l d) name = Some (split_ws l ! 2)"
  by (simp add: load_line_def names_line_def Let_def update_conv')

lemma load_line_miss:
  "\<not> names_line name l \<Longrightarrow> map_of (load_line l d) name = map_of d name"
  by (auto simp add: load_line_def names_line_def Let_def update_conv')

lemma fold_load_line_lookup:
  "map_of (fold load_line ls d) name =
     (if filter (names_line name) ls = [] then map_of d name
      else Some (split_ws (last (filter (names_line name) ls)) ! 2))"
proof (induction ls arbitrary: d)
  case Nil
  show ?case by simp
next
  case (Cons l ls)
  show ?case
  proof (cases "names_line name l")
    case True
    then show ?thesis using Cons.IH [of "load_line l d"] by (simp add: load_line_hit)
  next
    case False
    then show ?thesis using Cons.IH [of "load_line l d"] by (simp add: load_line_miss)
  qed
qed

lemma count_list_distinct_one:
  "distinct xs \<Longrightarrow> x \<in> set xs \<Longrightarrow> count_list xs x = 1"
  by (induction xs) (auto simp: count_list_0_iff)

lemma load_domains_distinct: "load_domains e = Inr D \<Longrightarrow> distinct (map fst D)"
  by (auto simp: load_domains_def fold_load_line_distinct split: option.splits)

text \<open>
  C9. When lines of the domains file that are not blank and have at least three fields
  share their first field \<open>name\<close>, the mapping returned by \<open>load_domains\<close> has
  \<open>name\<close> exactly once among its keys, bound to the third field of the last of these
  lines. (It holds as soon as there is one such line.)
\<close>

theorem load_domains_last_line_wins:
  assumes "domains_file e = Some text"
    and "hits = filter (names_line name) (split_on (CHR 0x0A) (strip text))"
    and "hits \<noteq> []"
  shows "\<exists>D. load_domains e = Inr D \<and> count_list (map fst D) name = 1
           \<and> map_of D name = Some (split_ws (last hits) ! 2)"
proof -
  let ?D = "fold load_line (split_on (CHR 0x0A) (strip text)) []"
  have D: "load_domains e = Inr ?D"
    using assms(1) by (simp add: load_domains_def)
  have look: "map_of ?D name = Some (split_ws (last hits) ! 2)"
    using assms(2,3) by (simp add: fold_load_line_lookup)
  have "distinct (map fst ?D)"
    by (simp add: fold_load_line_distinct)
  moreover have "map_of ?D name \<noteq> None"
    using look by simp
  then have "name \<in> set (map fst ?D)"
    by (simp add: map_of_eq_None_iff)
  ultimately have "count_list (map fst ?D) name = 1"
    by (rule count_list_distinct_one)
  with D look show ?thesis by blast
qed

theorem load_domains_last_line_wins_witness:
  "domains_file example_env = Some example_text
   \<and> length (filter (names_line ''a.com'') (split_on (CHR 0x0A) (strip example_text))) = 2
   \<and> (\<exists>D. load_domains example_env = Inr D \<and> count_list (map fst D) ''a.com'' = 1
           \<and> map_of D ''a.com'' = Some ''http://new.a.com'')"
proof -
  have f: "domains_file example_env = Some example_text"
    by (simp add: example_env_def)
  have l: "filter (names_line ''a.com'') (split_on (CHR 0x0A) (strip example_text))
        = [''a.com x http://old.a.com'', ''a.com z http://new.a.com'']"
    by code_simp
  have t: "split_ws ''a.com z http://new.a.com'' ! 2 = ''http://new.a.com''"
    by code_simp
  show ?thesis
    using load_domains_last_line_wins [OF f l [symmetric]] f l t by simp
qed

section \<open>The authenticator\<close>

lemma call_with_callback_eq:
  "call_with_callback e c w =
     (case remote e (trace w) c of Returned r \<Rightarrow> Some r | TimeoutError \<Rightarrow> None | OtherException \<Rightarrow> None,
      w\<lparr>trace := trace w @ [Call c]\<rparr>)"
  by (simp add: call_with_callback_def split: sio_outcome.splits)

lemma credential_tail:
  assumes "trace w2 = trace w @ token_call w" "w2 = after_token w"
  shows "(if USERNAME cfg = [] \<or> PASSWORD cfg = [] then (Inl (SystemExit 1), w2)
         else
           (let (response, w3) = call_with_callback e (Login (USERNAME cfg) (PASSWORD cfg) []) w2
            in if response_ok response then
                 (let w4 = w3\<lparr>authenticated := True\<rparr>
                  in case response of
                       None \<Rightarrow> (Inr (), w4)
                     | Some r \<Rightarrow>
                         (case r_token r of
                            None \<Rightarrow> (Inr (), w4)
                          | Some t \<Rightarrow>
                              if t \<noteq> [] then (Inr (), (save_jwt t w4)\<lparr>jwt_token := Some t\<rparr>)
                              else (Inr (), w4)))
               else (Inl (SystemExit 1), w3))) = credential_phase cfg e w"
proof (cases "credentials_configured cfg")
  case False
  then show ?thesis
    by (auto simp: credential_phase_def credentials_configured_def assms(2))
next
  case True
  then have c: "USERNAME cfg \<noteq> []" "PASSWORD cfg \<noteq> []"
    by (simp_all add: credentials_configured_def)
  have r: "remote e (trace w2) (Login (USERNAME cfg) (PASSWORD cfg) []) = login_reply cfg e w"
    by (simp add: login_reply_def login_call_def assms(1))
  have w3: "w2\<lparr>trace := trace w2 @ [Call (Login (USERNAME cfg) (PASSWORD cfg) [])]\<rparr> = after_login cfg w"
    by (simp add: after_login_def assms login_call_def after_token_def)
  show ?thesis
  proof (cases "login_reply cfg e w")
    case (Returned resp)
    then show ?thesis
      using True c r w3
      by (cases "r_token resp")
         (simp_all add: credential_phase_def call_with_callback_eq save_jwt_def)
  next
    case TimeoutError
    then show ?thesis
      using True c r w3 by (simp add: credential_phase_def call_with_callback_eq)
  next
    case OtherException
    then show ?thesis
      using True c r w3 by (simp add: credential_phase_def call_with_callback_eq)
  qed
qed

lemma authenticate_eq:
  "authenticate cfg e w =
     (if token_accepted e w then (Inr (), (after_token w)\<lparr>authenticated := True\<rparr>)
      else credential_phase cfg e w)"
proof (cases "load_jwt w")
  case None
  have na: "\<not> token_accepted e w" and tc: "token_call w = []"
    using None by (simp_all add: token_accepted_def token_call_def)
  have h1: "trace (w\<lparr>jwt_token := None\<rparr>) = trace w @ token_call w"
    by (simp add: tc)
  have h2: "w\<lparr>jwt_token := None\<rparr> = after_token w"
    using None by (simp add: after_token_def tc)
  show ?thesis
    using credential_tail [OF h1 h2, of cfg e]
    by (simp add: authenticate_def Let_def None na)
next
  case (Some t)
  show ?thesis
  proof (cases "t = []")
    case True
    have na: "\<not> token_accepted e w" and tc: "token_call w = []"
      using Some True by (simp_all add: token_accepted_def token_call_def)
    have h1: "trace (w\<lparr>jwt_token := Some []\<rparr>) = trace w @ token_call w"
      by (simp add: tc)
    have h2: "w\<lparr>jwt_token := Some []\<rparr> = after_token w"
      using Some True by (simp add: after_token_def tc)
    show ?thesis
      using credential_tail [OF h1 h2, of cfg e]
      by (simp add: authenticate_def Let_def Some True na)
  next
    case False
    have tc: "token_call w = [Call (LoginByToken t)]"
      using Some False by (simp add: token_call_def)
    let ?w2 = "w\<lparr>jwt_token := Some t, trace := trace w @ [Call (LoginByToken t)]\<rparr>"
    have h1: "trace ?w2 = trace w @ token_call w"
      by (simp add: tc)
    have h2: "?w2 = after_token w"
      using Some by (simp add: after_token_def tc)
    have cb: "call_with_callback e (LoginByToken t) (w\<lparr>jwt_token := Some t\<rparr>) =
        (case remote e (trace w) (LoginByToken t) of
           Returned r \<Rightarrow> Some r | TimeoutError \<Rightarrow> None | OtherException \<Rightarrow> None, ?w2)"
      by (simp add: call_with_callback_eq)
    show ?thesis
    proof (cases "token_accepted e w")
      case True
      then have "response_ok (case remote e (trace w) (LoginByToken t) of
                   Returned r \<Rightarrow> Some r | TimeoutError \<Rightarrow> None | OtherException \<Rightarrow> None)"
        using Some False by (simp add: token_accepted_def split: sio_outcome.splits)
      then show ?thesis
        using True h2 by (simp add: authenticate_def Let_def Some False cb)
    next
      case rej: False
      then have "\<not> response_ok (case remote e (trace w) (LoginByToken t) of
                   Returned r \<Rightarrow> Some r | TimeoutError \<Rightarrow> None | OtherException \<Rightarrow> None)"
        using Some False by (simp add: token_accepted_def split: sio_outcome.splits)
      then show ?thesis
        using rej credential_tail [OF h1 h2, of cfg e]
        by (simp add: authenticate_def Let_def Some False cb)
    qed
  qed
qed

lemma new_actions_append: "trace w' = trace w @ xs \<Longrightarrow> new_actions w w' = xs"
  by (simp add: new_actions_def)

lemma credential_phase_trace:
  "trace (snd (credential_phase cfg e w)) =
     trace w @ token_call w @ (if credentials_configured cfg then [Call (login_call cfg)] else [])"
  by (simp add: credential_phase_def after_login_def after_token_def
      split: sio_outcome.splits option.splits)

lemma authenticate_trace:
  "trace (snd (authenticate cfg e w)) =
     trace w @ token_call w @
       (if \<not> token_accepted e w \<and> credentials_configured cfg then [Call (login_call cfg)] else [])"
  by (simp add: authenticate_eq credential_phase_trace after_token_def)

lemma authenticate_fst:
  "fst (authenticate cfg e w) =
     (if token_accepted e w then Inr ()
      else if \<not> credentials_configured cfg then Inl (SystemExit 1)
      else (case login_reply cfg e w of
              Returned r \<Rightarrow> if r_ok r then Inr () else Inl (SystemExit 1)
            | TimeoutError \<Rightarrow> Inl (SystemExit 1)
            | OtherException \<Rightarrow> Inl (SystemExit 1)))"
  by (simp add: authenticate_eq credential_phase_def split: sio_outcome.splits)

lemma authenticate_authenticated:
  "authenticated (snd (authenticate cfg e w)) =
     (if token_accepted e w then True
      else if \<not> credentials_configured cfg then authenticated w
      else (case login_reply cfg e w of
              Returned r \<Rightarrow> if r_ok r then True else authenticated w
            | TimeoutError \<Rightarrow> authenticated w
            | OtherException \<Rightarrow> authenticated w))"
  by (simp add: authenticate_eq credential_phase_def after_login_def after_token_def
      split: sio_outcome.splits option.splits)

lemma authenticate_jwt_file:
  "jwt_file (snd (authenticate cfg e w)) =
     (if \<not> token_accepted e w \<and> credentials_configured cfg then
        (case login_reply cfg e w of
           Returned r \<Rightarrow>
             if r_ok r then
               (case r_token r of
                  None \<Rightarrow> jwt_file w
                | Some t \<Rightarrow> if t \<noteq> [] then Some t else jwt_file w)
             else jwt_file w
         | TimeoutError \<Rightarrow> jwt_file w
         | OtherException \<Rightarrow> jwt_file w)
      else jwt_file w)"
  by (simp add: authenticate_eq credential_phase_def after_login_def after_token_def
      split: sio_outcome.splits option.splits)

lemma token_call_filters:
  "filter is_credential_login (token_call w) = []"
  "length (filter is_token_login (token_call w)) \<le> 1"
  by (simp_all add: token_call_def split: option.splits)

lemma login_call_filters:
  "is_credential_login (Call (login_call cfg))"
  "\<not> is_token_login (Call (login_call cfg))"
  by (simp_all add: login_call_def)

lemma strip_blank: "\<forall>c\<in>set s. is_space c \<Longrightarrow> strip s = []"
proof -
  assume "\<forall>c\<in>set s. is_space c"
  then have "dropWhile is_space s = []"
    by (induction s) simp_all
  then show ?thesis
    unfolding strip_def by (simp only: rev.simps dropWhile.simps)
qed

text \<open>
  C5. When a stored token is present and its login is answered with ok
  (\<open>token_accepted\<close>), \<open>authenticate\<close> succeeds with the token call alone, makes no
  credential login and leaves the token file as it was. When the token is absent, blank
  or not accepted (a response that is not ok, a timeout, an error) and user name and
  password are configured, exactly one credential login follows the token call, if any;
  when that login succeeds (the credentials are valid: the response is ok) and carries a
  token (one that is not empty), the token file holds that token afterwards, whatever it
  held before; otherwise the token file is left as it was. In every run at most one
  token login and at most one credential login are made.
\<close>

theorem authenticate_login_calls:
  "(token_accepted e w \<longrightarrow>
      fst (authenticate cfg e w) = Inr ()
      \<and> new_actions w (snd (authenticate cfg e w)) = token_call w
      \<and> filter is_credential_login (new_actions w (snd (authenticate cfg e w))) = []
      \<and> jwt_file (snd (authenticate cfg e w)) = jwt_file w)
   \<and> (\<not> token_accepted e w \<and> credentials_configured cfg \<longrightarrow>
      new_actions w (snd (authenticate cfg e w)) = token_call w @ [Call (login_call cfg)]
      \<and> length (filter is_credential_login (new_actions w (snd (authenticate cfg e w)))) = 1
      \<and> (\<forall>r t. login_reply cfg e w = Returned r \<and> r_ok r \<and> r_token r = Some t \<and> t \<noteq> [] \<longrightarrow>
             fst (authenticate cfg e w) = Inr ()
             \<and> jwt_file (snd (authenticate cfg e w)) = Some t)
      \<and> (\<not> (\<exists>r t. login_reply cfg e w = Returned r \<and> r_ok r \<and> r_token r = Some t \<and> t \<noteq> []) \<longrightarrow>
             jwt_file (snd (authenticate cfg e w)) = jwt_file w))
   \<and> length (filter is_token_login (new_actions w (snd (authenticate cfg e w)))) \<le> 1
   \<and> length (filter is_credential_login (new_actions w (snd (authenticate cfg e w)))) \<le> 1"
proof -
  let ?acts = "new_actions w (snd (authenticate cfg e w))"
  have acts: "?acts = token_call w @
       (if \<not> token_accepted e w \<and> credentials_configured cfg then [Call (login_call cfg)] else [])"
    by (rule new_actions_append) (rule authenticate_trace)
  have a: "token_accepted e w \<longrightarrow>
      fst (authenticate cfg e w) = Inr () \<and> ?acts = token_call w
      \<and> filter is_credential_login ?acts = []
      \<and> jwt_file (snd (authenticate cfg e w)) = jwt_file w"
    by (simp add: acts authenticate_fst authenticate_jwt_file token_call_filters)
  have b: "\<not> token_accepted e w \<and> credentials_configured cfg \<longrightarrow>
      ?acts = token_call w @ [Call (login_call cfg)]
      \<and> length (filter is_credential_login ?acts) = 1
      \<and> (\<forall>r t. login_reply cfg e w = Returned r \<and> r_ok r \<and> r_token r = Some t \<and> t \<noteq> [] \<longrightarrow>
             fst (authenticate cfg e w) = Inr ()
             \<and> jwt_file (snd (authenticate cfg e w)) = Some t)
      \<and> (\<not> (\<exists>r t. login_reply cfg e w = Returned r \<and> r_ok r \<and> r_token r = Some t \<and> t \<noteq> []) \<longrightarrow>
             jwt_file (snd (authenticate cfg e w)) = jwt_file w)"
    by (auto simp: acts authenticate_fst authenticate_jwt_file token_call_filters login_call_filters
        split: sio_outcome.splits option.splits)
  have c: "length (filter is_token_login ?acts) \<le> 1"
    using token_call_filters(2) [of w] by (simp add: acts login_call_filters)
  have d: "length (filter is_credential_login ?acts) \<le> 1"
    by (simp add: acts token_call_filters login_call_filters)
  from a b c d show ?thesis by blast
qed

theorem authenticate_login_calls_witness:
  "token_accepted example_env (start_world (Some '' stored ''))
   \<and> fst (authenticate example_cfg example_env (start_world (Some '' stored ''))) = Inr ()
   \<and> new_actions (start_world (Some '' stored ''))
        (snd (authenticate example_cfg example_env (start_world (Some '' stored ''))))
      = [Call (LoginByToken ''stored'')]
   \<and> jwt_file (snd (authenticate example_cfg example_env (start_world (Some '' stored ''))))
      = Some '' stored ''
   \<and> \<not> token_accepted fallback_env (start_world (Some ''old''))
   \<and> credentials_configured example_cfg
   \<and> new_actions (start_world (Some ''old''))
        (snd (authenticate example_cfg fallback_env (start_world (Some ''old''))))
      = [Call (LoginByToken ''old''), Call (Login ''admin'' ''secret'' [])]
   \<and> jwt_file (snd (authenticate example_cfg fallback_env (start_world (Some ''old''))))
      = Some ''fresh''"
proof -
  have s: "strip '' stored '' = ''stored''" "strip ''old'' = ''old''"
    by (simp_all add: strip_def is_space_def)
  have l: "load_jwt (start_world (Some '' stored '')) = Some ''stored''"
    "load_jwt (start_world (Some ''old'')) = Some ''old''"
    by (simp_all add: load_jwt_def start_world_def s)
  have a: "token_accepted example_env (start_world (Some '' stored ''))"
    by (simp add: token_accepted_def l example_env_def example_response_def)
  have r: "\<not> token_accepted fallback_env (start_world (Some ''old''))"
    by (simp add: token_accepted_def l fallback_env_def rejected_response_def)
  have c: "credentials_configured example_cfg"
    by (simp add: credentials_configured_def example_cfg_def)
  have tc: "token_call (start_world (Some '' stored '')) = [Call (LoginByToken ''stored'')]"
    "token_call (start_world (Some ''old'')) = [Call (LoginByToken ''old'')]"
    by (simp_all add: token_call_def l)
  have lc: "login_call example_cfg = Login ''admin'' ''secret'' []"
    by (simp add: login_call_def example_cfg_def)
  have lr: "login_reply example_cfg fallback_env (start_world (Some ''old'')) = Returned example_response"
    by (simp add: login_reply_def fallback_env_def lc)
  have er: "r_ok example_response" "r_token example_response = Some ''fresh''"
    by (simp_all add: example_response_def)
  have f: "jwt_file (start_world (Some '' stored '')) = Some '' stored ''"
    by (simp add: start_world_def)
  show ?thesis
    using authenticate_login_calls [of example_env "start_world (Some '' stored '')" example_cfg]
      authenticate_login_calls [of fallback_env "start_world (Some ''old'')" example_cfg]
      a r c tc lc lr er f
    by simp
qed

text \<open>
  C10. A token file that holds white space only is treated like a missing one:
  \<open>load_jwt\<close> returns the empty string, no token login is made, the first and only
  call is the credential login (none when no credentials are configured), and the result,
  the trace and the \<open>authenticated\<close> flag are those of the run without the file.
\<close>

theorem blank_token_file_is_no_token:
  assumes "jwt_file w = Some s" and "\<forall>c\<in>set s. is_space c"
  shows "load_jwt w = Some []
    \<and> filter is_token_login (new_actions w (snd (authenticate cfg e w))) = []
    \<and> new_actions w (snd (authenticate cfg e w)) =
        (if credentials_configured cfg then [Call (login_call cfg)] else [])
    \<and> fst (authenticate cfg e w) = fst (authenticate cfg e (w\<lparr>jwt_file := None\<rparr>))
    \<and> trace (snd (authenticate cfg e w)) = trace (snd (authenticate cfg e (w\<lparr>jwt_file := None\<rparr>)))
    \<and> authenticated (snd (authenticate cfg e w))
        = authenticated (snd (authenticate cfg e (w\<lparr>jwt_file := None\<rparr>)))"
proof -
  let ?v = "w\<lparr>jwt_file := None\<rparr>"
  have l: "load_jwt w = Some []"
    using assms by (simp add: load_jwt_def strip_blank)
  have l': "load_jwt ?v = None"
    by (simp add: load_jwt_def)
  have tc: "token_call w = []" "token_call ?v = []"
    by (simp_all add: token_call_def l l')
  have ta: "\<not> token_accepted e w" "\<not> token_accepted e ?v"
    by (simp_all add: token_accepted_def l l')
  have lr: "login_reply cfg e ?v = login_reply cfg e w"
    by (simp add: login_reply_def tc)
  have tr: "trace (snd (authenticate cfg e w)) =
      trace w @ (if credentials_configured cfg then [Call (login_call cfg)] else [])"
    by (simp add: authenticate_trace tc ta)
  have tr': "trace (snd (authenticate cfg e ?v)) =
      trace w @ (if credentials_configured cfg then [Call (login_call cfg)] else [])"
    by (simp add: authenticate_trace tc ta)
  have na: "new_actions w (snd (authenticate cfg e w)) =
      (if credentials_configured cfg then [Call (login_call cfg)] else [])"
    by (rule new_actions_append) (rule tr)
  have f: "fst (authenticate cfg e w) = fst (authenticate cfg e ?v)"
    by (simp add: authenticate_fst ta lr)
  have au: "authenticated (snd (authenticate cfg e w)) = authenticated (snd (authenticate cfg e ?v))"
    by (simp add: authenticate_authenticated ta lr split: sio_outcome.splits)
  have nt: "filter is_token_login (new_actions w (snd (authenticate cfg e w))) = []"
    by (simp add: na login_call_filters)
  from l nt na f tr tr' au show ?thesis by simp
qed

theorem blank_token_file_is_no_token_witness:
  "jwt_file (start_world (Some [CHR '' '', CHR 0x0A])) = Some [CHR '' '', CHR 0x0A]
   \<and> list_all is_space [CHR '' '', CHR 0x0A]
   \<and> load_jwt (start_world (Some [CHR '' '', CHR 0x0A])) = Some []
   \<and> new_actions (start_world (Some [CHR '' '', CHR 0x0A]))
        (snd (authenticate example_cfg example_env (start_world (Some [CHR '' '', CHR 0x0A]))))
      = [Call (Login ''admin'' ''secret'' [])]
   \<and> fst (authenticate example_cfg example_env (start_world (Some [CHR '' '', CHR 0x0A])))
      = fst (authenticate example_cfg example_env (start_world None))"
proof -
  have f: "jwt_file (start_world (Some [CHR '' '', CHR 0x0A])) = Some [CHR '' '', CHR 0x0A]"
    by (simp add: start_world_def)
  have b: "\<forall>c\<in>set [CHR '' '', CHR 0x0A]. is_space c"
    by (simp add: is_space_def)
  have n: "(start_world (Some [CHR '' '', CHR 0x0A]))\<lparr>jwt_file := None\<rparr> = start_world None"
    by (simp add: start_world_def)
  have c: "credentials_configured example_cfg"
    by (simp add: credentials_configured_def example_cfg_def)
  have lc: "login_call example_cfg = Login ''admin'' ''secret'' []"
    by (simp add: login_call_def example_cfg_def)
  show ?thesis
    using blank_token_file_is_no_token [OF f b, of example_cfg example_env] f b n c lc
    by simp
qed

section \<open>The reconciler\<close>

lemma existing_loop_filtered:
  "existing_loop cfg (filtered cfg M) acc = existing_loop cfg M acc"
  by (induction M arbitrary: acc)
     (auto simp: filtered_def managed_def split: option.splits)

lemma existing_loop_fold:
  "named cfg M \<Longrightarrow>
   existing_loop cfg M acc =
     Inr (fold (\<lambda>p. AList.update (fst (entry_of p)) (snd (entry_of p))) (filtered cfg M) acc)"
  by (induction M arbitrary: acc)
     (auto simp: filtered_def managed_def named_def entry_of_def split: option.splits)

lemma existing_loop_unnamed:
  "\<not> named cfg M \<Longrightarrow> existing_loop cfg M acc = Inl (KeyError ''name'')"
  by (induction M arbitrary: acc)
     (auto simp: filtered_def managed_def named_def split: option.splits)

lemma fold_update_keys:
  "fst ` set (fold (\<lambda>p. AList.update (f p) (g p)) ps acc) = fst ` set acc \<union> f ` set ps"
  by (induction ps arbitrary: acc) (auto simp: dom_update)

lemma fold_update_distinct:
  "distinct (map fst acc) \<Longrightarrow> distinct (map fst (fold (\<lambda>p. AList.update (f p) (g p)) ps acc))"
  by (induction ps arbitrary: acc) (simp_all add: distinct_update)

lemma update_entry:
  "(k, v) \<in> set (AList.update k' v' al) \<Longrightarrow> (k, v) \<in> set al \<or> (k, v) = (k', v')"
  by (induction al) (auto split: if_splits)

lemma fold_update_entries:
  "(k, v) \<in> set (fold (\<lambda>p. AList.update (f p) (g p)) ps acc) \<Longrightarrow>
   (k, v) \<in> set acc \<or> (\<exists>p\<in>set ps. f p = k \<and> g p = v)"
proof (induction ps arbitrary: acc)
  case Nil
  then show ?case by simp
next
  case (Cons p ps)
  from Cons.IH [of "AList.update (f p) (g p) acc"] Cons.prems
  have "(k, v) \<in> set (AList.update (f p) (g p) acc) \<or> (\<exists>q\<in>set ps. f q = k \<and> g q = v)"
    by simp
  then show ?case
    using update_entry [of k v "f p" "g p" acc] by auto
qed

lemma update_fresh: "k \<notin> fst ` set al \<Longrightarrow> AList.update k v al = al @ [(k, v)]"
  by (induction al) auto

lemma fold_update_fresh:
  "distinct (map f ps) \<Longrightarrow> f ` set ps \<inter> fst ` set acc = {} \<Longrightarrow>
   fold (\<lambda>p. AList.update (f p) (g p)) ps acc = acc @ map (\<lambda>p. (f p, g p)) ps"
proof (induction ps arbitrary: acc)
  case Nil
  then show ?case by simp
next
  case (Cons p ps)
  have fresh: "f p \<notin> fst ` set acc"
    using Cons.prems(2) by auto
  have "f ` set ps \<inter> fst ` set (acc @ [(f p, g p)]) = {}"
    using Cons.prems by auto
  with Cons.IH [of "acc @ [(f p, g p)]"] Cons.prems(1) fresh show ?case
    by (simp add: update_fresh)
qed

lemma get_existing_monitors_eq:
  "get_existing_monitors cfg w =
     (if named cfg (monitor_list w) then
        Inr (fold (\<lambda>p. AList.update (fst (entry_of p)) (snd (entry_of p))) (filtered cfg (monitor_list w)) [])
      else Inl (KeyError ''name''))"
  by (simp add: get_existing_monitors_def existing_loop_fold existing_loop_unnamed)

lemma existing_keys:
  "get_existing_monitors cfg w = Inr ex \<Longrightarrow> fst ` set ex = set (managed_names cfg (monitor_list w))"
proof -
  assume "get_existing_monitors cfg w = Inr ex"
  then have "ex = fold (\<lambda>p. AList.update (fst (entry_of p)) (snd (entry_of p))) (filtered cfg (monitor_list w)) []"
    by (auto simp: get_existing_monitors_eq split: if_splits)
  then show ?thesis
    by (simp add: fold_update_keys managed_names_def)
qed

lemma existing_distinct:
  "get_existing_monitors cfg w = Inr ex \<Longrightarrow> distinct (map fst ex)"
  by (auto simp: get_existing_monitors_eq fold_update_distinct split: if_splits)

lemma existing_entries:
  "get_existing_monitors cfg w = Inr ex \<Longrightarrow> x \<in> set ex \<Longrightarrow>
   \<exists>p\<in>set (filtered cfg (monitor_list w)). entry_of p = x"
proof -
  assume a: "get_existing_monitors cfg w = Inr ex" and x: "x \<in> set ex"
  obtain k v where kv: "x = (k, v)" by (cases x)
  from a have "ex = fold (\<lambda>p. AList.update (fst (entry_of p)) (snd (entry_of p))) (filtered cfg (monitor_list w)) []"
    by (auto simp: get_existing_monitors_eq split: if_splits)
  with x kv fold_update_entries [of k v "\<lambda>p. fst (entry_of p)" "\<lambda>p. snd (entry_of p)" "filtered cfg (monitor_list w)" "[]"]
  show ?thesis by auto
qed

lemma existing_unique:
  "get_existing_monitors cfg w = Inr ex \<Longrightarrow> distinct (managed_names cfg (monitor_list w)) \<Longrightarrow>
   ex = map entry_of (filtered cfg (monitor_list w))"
proof -
  assume a: "get_existing_monitors cfg w = Inr ex" and d: "distinct (managed_names cfg (monitor_list w))"
  from a have "ex = fold (\<lambda>p. AList.update (fst (entry_of p)) (snd (entry_of p))) (filtered cfg (monitor_list w)) []"
    by (auto simp: get_existing_monitors_eq split: if_splits)
  also have "\<dots> = [] @ map (\<lambda>p. (fst (entry_of p), snd (entry_of p))) (filtered cfg (monitor_list w))"
    using d by (intro fold_update_fresh) (simp_all add: managed_names_def)
  finally show ?thesis by simp
qed


lemma existing_named:
  "get_existing_monitors cfg w = Inr ex \<Longrightarrow> named cfg (monitor_list w)"
  by (auto simp: get_existing_monitors_eq split: if_splits)

lemma has_key_existing:
  "get_existing_monitors cfg w = Inr ex \<Longrightarrow>
   has_key ex n = (n \<in> set (managed_names cfg (monitor_list w)))"
  by (simp add: has_key_def existing_keys)

lemma create_monitor_eq:
  "create_monitor cfg e name url w =
     (response_ok (fst (call_with_callback e (Add (monitor_payload cfg name url)) w)),
      w\<lparr>trace := trace w @ [create_call cfg (name, url)]\<rparr>)"
  by (simp add: create_monitor_def call_with_callback_eq create_call_def)

lemma delete_monitor_eq:
  "delete_monitor e monitor_id name w =
     (response_ok (fst (call_with_callback e (DeleteMonitor monitor_id) w)),
      w\<lparr>trace := trace w @ [Call (DeleteMonitor monitor_id)]\<rparr>)"
  by (simp add: delete_monitor_def call_with_callback_eq)

lemma sync_loop_count:
  "created \<le> fst (sync_loop cfg e existing domains created w)
   \<and> fst (sync_loop cfg e existing domains created w)
       \<le> created + length (create_set domains existing)"
proof (induction domains arbitrary: created w)
  case Nil
  show ?case by (simp add: create_set_def)
next
  case (Cons d domains)
  obtain name url where d: "d = (name, url)" by (cases d)
  let ?w = "w\<lparr>trace := trace w @ [create_call cfg (name, url)]\<rparr>"
  show ?case
  proof (cases "has_key existing name")
    case True
    then show ?thesis
      using Cons.IH [of created w] by (simp add: d create_set_def)
  next
    case False
    then show ?thesis
      using Cons.IH [of "Suc created" ?w] Cons.IH [of created ?w]
      by (simp add: d create_set_def create_monitor_eq)
  qed
qed

lemma preview_loop_eq:
  "preview_loop domains existing to_delete = to_delete @ delete_set domains existing"
proof (induction existing arbitrary: to_delete)
  case Nil
  show ?case by (simp add: delete_set_def)
next
  case (Cons x existing)
  obtain name monitor_id url where x: "x = (name, monitor_id, url)" by (cases x)
  show ?case
    by (simp add: x delete_set_def Cons.IH [unfolded delete_set_def])
qed

lemma confirm_loop_count:
  "deleted \<le> fst (confirm_loop e domains existing deleted w)
   \<and> fst (confirm_loop e domains existing deleted w)
       \<le> deleted + length (delete_set domains existing)"
proof (induction existing arbitrary: deleted w)
  case Nil
  show ?case by (simp add: delete_set_def)
next
  case (Cons x existing)
  obtain name monitor_id url where x: "x = (name, monitor_id, url)" by (cases x)
  let ?w = "w\<lparr>trace := trace w @ [Call (DeleteMonitor monitor_id)]\<rparr>"
  show ?case
  proof (cases "has_key domains name")
    case True
    then show ?thesis
      using Cons.IH [of deleted w] by (simp add: x delete_set_def)
  next
    case False
    then show ?thesis
      using Cons.IH [of "Suc deleted" ?w] Cons.IH [of deleted ?w]
      by (simp add: x delete_set_def delete_monitor_eq)
  qed
qed

lemma sync_loop_world:
  "snd (sync_loop cfg e existing domains created w) =
     w\<lparr>trace := trace w @ map (create_call cfg) (create_set domains existing)\<rparr>"
proof (induction domains arbitrary: created w)
  case Nil
  show ?case by (simp add: create_set_def)
next
  case (Cons d domains)
  obtain name url where d: "d = (name, url)" by (cases d)
  show ?case
    by (simp add: d create_set_def create_monitor_eq Cons.IH [unfolded create_set_def])
qed

lemma confirm_loop_world:
  "snd (confirm_loop e domains existing deleted w) =
     w\<lparr>trace := trace w @ map delete_call (delete_set domains existing)\<rparr>"
proof (induction existing arbitrary: deleted w)
  case Nil
  show ?case by (simp add: delete_set_def)
next
  case (Cons x existing)
  obtain name monitor_id url where x: "x = (name, monitor_id, url)" by (cases x)
  show ?case
    by (simp add: x delete_set_def delete_call_def delete_monitor_eq Cons.IH [unfolded delete_set_def delete_call_def])
qed

lemma cmd_sync_eq:
  "load_domains e = Inr D \<Longrightarrow> get_existing_monitors cfg w = Inr ex \<Longrightarrow>
   cmd_sync cfg e w =
     (Inr (Synced (fst (sync_loop cfg e ex D 0 w)) (length D)),
      w\<lparr>trace := trace w @ map (create_call cfg) (create_set D ex)\<rparr>)"
  using sync_loop_world [of cfg e ex D 0 w]
  by (simp add: cmd_sync_def split_beta)

lemma cmd_cleanup_preview_eq:
  "load_domains e = Inr D \<Longrightarrow> get_existing_monitors cfg w = Inr ex \<Longrightarrow>
   cmd_cleanup_preview cfg e w = (Inr (Preview (delete_set D ex)), w)"
  by (simp add: cmd_cleanup_preview_def preview_loop_eq)

lemma cmd_cleanup_confirm_eq:
  "load_domains e = Inr D \<Longrightarrow> get_existing_monitors cfg w = Inr ex \<Longrightarrow>
   cmd_cleanup_confirm cfg e w =
     (Inr (Removed (fst (confirm_loop e D ex 0 w))),
      w\<lparr>trace := trace w @ map delete_call (delete_set D ex)\<rparr>)"
  using confirm_loop_world [of e D ex 0 w]
  by (simp add: cmd_cleanup_confirm_def split_beta)

lemma new_actions_update: "new_actions w (w\<lparr>trace := trace w @ xs\<rparr>) = xs"
  by (simp add: new_actions_def)

lemma create_set_managed:
  "get_existing_monitors cfg w = Inr ex \<Longrightarrow>
   create_set D ex = filter (\<lambda>d. fst d \<notin> set (managed_names cfg (monitor_list w))) D"
  by (simp add: create_set_def has_key_existing)

lemma count_list_distinct:
  "distinct xs \<Longrightarrow> count_list xs x = (if x \<in> set xs then 1 else 0)"
  by (simp add: count_list_distinct_one count_list_0_iff)

lemma created_name_create_call: "created_name (create_call cfg d) = Some (fst d)"
  by (simp add: create_call_def monitor_payload_def)

lemma count_created:
  assumes "distinct (map fst D)"
  shows "count_list (map created_name (map (create_call cfg) (filter (\<lambda>d. P (fst d)) D))) (Some n)
     = (if n \<in> fst ` set D \<and> P n then 1 else 0)"
proof -
  have "map created_name (map (create_call cfg) (filter (\<lambda>d. P (fst d)) D))
      = map Some (filter P (map fst D))"
    by (simp add: created_name_create_call filter_map comp_def)
  moreover have "distinct (map Some (filter P (map fst D)))"
    using assms by (simp add: distinct_map)
  ultimately show ?thesis
    by (simp add: count_list_distinct image_iff)
qed

lemma stored_payload_managed: "managed cfg (stored_monitor (monitor_payload cfg n u))"
  by (simp add: managed_def stored_monitor_def monitor_payload_def)

lemma entry_of_stored:
  "entry_of (i, stored_monitor (monitor_payload cfg n u)) = (n, i, u)"
  by (simp add: entry_of_def stored_monitor_def monitor_payload_def)

lemma created_payloads_calls:
  "created_payloads (map (create_call cfg) cs) = map (\<lambda>d. monitor_payload cfg (fst d) (snd d)) cs"
  by (induction cs) (simp_all add: created_payloads_def create_call_def map_filter_simps)

lemma after_creates_fresh:
  assumes "distinct (map fst news)" and "fst ` set news \<inter> fst ` set M = {}"
  shows "after_creates M news = M @ map (\<lambda>p. (fst p, stored_monitor (snd p))) news"
  unfolding after_creates_def using assms by (rule fold_update_fresh)

lemma filtered_append: "filtered cfg (M @ N) = filtered cfg M @ filtered cfg N"
  by (simp add: filtered_def)

lemma filtered_all: "\<forall>p\<in>set N. managed cfg (snd p) \<Longrightarrow> filtered cfg N = N"
  by (simp add: filtered_def)

lemma after_sync_directory:
  assumes "length ids = length cs" and "distinct ids" and "set ids \<inter> fst ` set M = {}"
  shows "after_creates M (zip ids (created_payloads (map (create_call cfg) cs)))
     = M @ map (\<lambda>(i, d). (i, stored_monitor (monitor_payload cfg (fst d) (snd d)))) (zip ids cs)"
proof -
  let ?news = "zip ids (map (\<lambda>d. monitor_payload cfg (fst d) (snd d)) cs)"
  have f: "map fst ?news = ids"
    using assms(1) by simp
  have "after_creates M ?news = M @ map (\<lambda>p. (fst p, stored_monitor (snd p))) ?news"
    using assms(2,3) f by (intro after_creates_fresh) (simp_all add: set_map [symmetric] del: set_map)
  also have "map (\<lambda>p. (fst p, stored_monitor (snd p))) ?news
      = map (\<lambda>(i, d). (i, stored_monitor (monitor_payload cfg (fst d) (snd d)))) (zip ids cs)"
    by (simp add: zip_map2 split_beta)
  finally show ?thesis
    by (simp add: created_payloads_calls)
qed

lemma after_sync_names:
  assumes "length ids = length cs"
  shows "managed_names cfg (M @ map (\<lambda>(i, d). (i, stored_monitor (monitor_payload cfg (fst d) (snd d)))) (zip ids cs))
     = managed_names cfg M @ map fst cs"
proof -
  let ?N = "map (\<lambda>(i, d). (i, stored_monitor (monitor_payload cfg (fst d) (snd d)))) (zip ids cs)"
  have "filtered cfg ?N = ?N"
    by (rule filtered_all) (auto simp: stored_payload_managed)
  moreover have "map (\<lambda>p. fst (entry_of p)) ?N = map (\<lambda>p. fst (snd p)) (zip ids cs)"
    by (simp add: split_beta entry_of_stored)
  moreover have "map (\<lambda>p. fst (snd p)) (zip ids cs) = map fst (map snd (zip ids cs))"
    by simp
  ultimately show ?thesis
    using assms by (simp add: managed_names_def filtered_append del: map_map)
qed

lemma after_sync_named:
  assumes "named cfg M"
  shows "named cfg (M @ map (\<lambda>(i, d). (i, stored_monitor (monitor_payload cfg (fst d) (snd d)))) (zip ids cs))"
proof -
  let ?N = "map (\<lambda>(i, d). (i, stored_monitor (monitor_payload cfg (fst d) (snd d)))) (zip ids cs)"
  have "filtered cfg ?N = ?N"
    by (rule filtered_all) (auto simp: stored_payload_managed)
  moreover have "list_all (\<lambda>p. m_name (snd p) \<noteq> None) ?N"
    by (simp add: list_all_iff split_beta stored_monitor_def)
  ultimately show ?thesis
    using assms by (simp add: named_def filtered_append)
qed

lemma second_sync_is_empty:
  assumes D: "load_domains e = Inr D" and ex: "get_existing_monitors cfg w = Inr ex"
    and len: "length ids = length (create_set D ex)" and dist: "distinct ids"
    and fresh: "set ids \<inter> fst ` set (monitor_list w) = {}"
    and M2: "monitor_list w2 =
       after_creates (monitor_list w) (zip ids (created_payloads (map (create_call cfg) (create_set D ex))))"
  shows "cmd_sync cfg e w2 = (Inr (Synced 0 (length D)), w2)"
proof -
  let ?cs = "create_set D ex"
  let ?M2 = "monitor_list w @ map (\<lambda>(i, d). (i, stored_monitor (monitor_payload cfg (fst d) (snd d)))) (zip ids ?cs)"
  have m: "monitor_list w2 = ?M2"
    using M2 after_sync_directory [OF len dist fresh] by simp
  have "named cfg (monitor_list w)"
    using ex by (rule existing_named)
  then have "named cfg (monitor_list w2)"
    unfolding m by (rule after_sync_named)
  then obtain ex2 where ex2: "get_existing_monitors cfg w2 = Inr ex2"
    by (simp add: get_existing_monitors_eq)
  have names: "set (managed_names cfg (monitor_list w2))
      = set (managed_names cfg (monitor_list w)) \<union> fst ` set ?cs"
    unfolding m by (simp add: after_sync_names [OF len])
  have "create_set D ex2 = []"
  proof -
    have "\<forall>d\<in>set D. has_key ex2 (fst d)"
    proof
      fix d assume d: "d \<in> set D"
      show "has_key ex2 (fst d)"
      proof (cases "has_key ex (fst d)")
        case True
        then show ?thesis
          using has_key_existing [OF ex] has_key_existing [OF ex2] names by simp
      next
        case False
        then have "d \<in> set ?cs"
          using d by (simp add: create_set_def)
        then show ?thesis
          using has_key_existing [OF ex2] names by auto
      qed
    qed
    then show ?thesis
      by (simp add: create_set_def filter_empty_conv)
  qed
  moreover from this have "fst (sync_loop cfg e ex2 D 0 w2) = 0"
    using sync_loop_count [of 0 cfg e ex2 D w2] by simp
  ultimately show ?thesis
    using cmd_sync_eq [OF D ex2] by simp
qed

text \<open>
  C1. With the domains file loaded as \<open>D\<close> and a directory whose filtered monitors
  (parent is the configured group, type is http) all carry a name, \<open>cmd_sync\<close>
  returns normally and the calls it issues are the create calls for the entries of \<open>D\<close>
  whose name no filtered monitor bears, in the order of \<open>D\<close>: one create call for
  each such name and none for any other name. When the remote service has stored every
  monitor sent under identifiers that are new, a second \<open>cmd_sync\<close> on the resulting
  directory issues no call.
\<close>

theorem sync_creates_exactly_the_missing:
  assumes "load_domains e = Inr D" and "named cfg (monitor_list w)"
  shows "\<exists>created w'.
      cmd_sync cfg e w = (Inr (Synced created (length D)), w')
      \<and> new_actions w w' =
          map (create_call cfg) (filter (\<lambda>d. fst d \<notin> set (managed_names cfg (monitor_list w))) D)
      \<and> (\<forall>n. count_list (map created_name (new_actions w w')) (Some n) =
               (if n \<in> fst ` set D \<and> n \<notin> set (managed_names cfg (monitor_list w)) then 1 else 0))
      \<and> (\<forall>ids w2.
            length ids = length (new_actions w w') \<and> distinct ids
            \<and> set ids \<inter> fst ` set (monitor_list w) = {}
            \<and> monitor_list w2 =
                after_creates (monitor_list w) (zip ids (created_payloads (new_actions w w')))
            \<longrightarrow> cmd_sync cfg e w2 = (Inr (Synced 0 (length D)), w2)
                \<and> new_actions w2 (snd (cmd_sync cfg e w2)) = [])"
proof -
  obtain ex where ex: "get_existing_monitors cfg w = Inr ex"
    using assms(2) by (simp add: get_existing_monitors_eq)
  let ?cs = "create_set D ex"
  let ?w' = "w\<lparr>trace := trace w @ map (create_call cfg) ?cs\<rparr>"
  have run: "cmd_sync cfg e w = (Inr (Synced (fst (sync_loop cfg e ex D 0 w)) (length D)), ?w')"
    using assms(1) ex by (rule cmd_sync_eq)
  have acts: "new_actions w ?w' = map (create_call cfg) ?cs"
    by (rule new_actions_update)
  have cs: "?cs = filter (\<lambda>d. fst d \<notin> set (managed_names cfg (monitor_list w))) D"
    using ex by (rule create_set_managed)
  have once: "\<forall>n. count_list (map created_name (new_actions w ?w')) (Some n) =
               (if n \<in> fst ` set D \<and> n \<notin> set (managed_names cfg (monitor_list w)) then 1 else 0)"
    unfolding acts unfolding cs
    using count_created [OF load_domains_distinct [OF assms(1)],
        of cfg "\<lambda>n. n \<notin> set (managed_names cfg (monitor_list w))"]
    by blast
  have again: "\<forall>ids w2.
            length ids = length (new_actions w ?w') \<and> distinct ids
            \<and> set ids \<inter> fst ` set (monitor_list w) = {}
            \<and> monitor_list w2 =
                after_creates (monitor_list w) (zip ids (created_payloads (new_actions w ?w')))
            \<longrightarrow> cmd_sync cfg e w2 = (Inr (Synced 0 (length D)), w2)
                \<and> new_actions w2 (snd (cmd_sync cfg e w2)) = []"
  proof (intro allI impI)
    fix ids :: "int list" and w2 :: world
    assume h: "length ids = length (new_actions w ?w') \<and> distinct ids
            \<and> set ids \<inter> fst ` set (monitor_list w) = {}
            \<and> monitor_list w2 =
                after_creates (monitor_list w) (zip ids (created_payloads (new_actions w ?w')))"
    have "cmd_sync cfg e w2 = (Inr (Synced 0 (length D)), w2)"
      using h unfolding acts
      by (intro second_sync_is_empty [OF assms(1) ex, of ids w2]) simp_all
    then show "cmd_sync cfg e w2 = (Inr (Synced 0 (length D)), w2)
                \<and> new_actions w2 (snd (cmd_sync cfg e w2)) = []"
      by (simp add: new_actions_def)
  qed
  show ?thesis
    using run acts [unfolded cs] once again cs by (intro exI [of _ "fst (sync_loop cfg e ex D 0 w)"] exI [of _ ?w']) simp
qed

theorem sync_creates_exactly_the_missing_witness:
  "load_domains example_env = Inr [(''a.com'', ''http://new.a.com''), (''b.com'', ''http://b.com'')]
   \<and> named example_cfg (monitor_list example_world)
   \<and> managed_names example_cfg (monitor_list example_world) = [''a.com'', ''c.com'']
   \<and> new_actions example_world (snd (cmd_sync example_cfg example_env example_world))
       = [create_call example_cfg (''b.com'', ''http://b.com'')]
   \<and> cmd_sync example_cfg example_env second_world = (Inr (Synced 0 2), second_world)"
proof -
  let ?D = "[(''a.com'', ''http://new.a.com''), (''b.com'', ''http://b.com'')]"
  have d: "load_domains example_env = Inr ?D"
    unfolding load_domains_def example_env_def by code_simp
  have n: "named example_cfg (monitor_list example_world)"
    by (simp add: named_def example_world_def example_directory_def filtered_def managed_def
        example_monitor_def example_cfg_def)
  have m: "managed_names example_cfg (monitor_list example_world) = [''a.com'', ''c.com'']"
    by (simp add: managed_names_def example_world_def example_directory_def filtered_def managed_def
        example_monitor_def example_cfg_def entry_of_def)
  from sync_creates_exactly_the_missing [OF d n] obtain created w' where
    run: "cmd_sync example_cfg example_env example_world = (Inr (Synced created (length ?D)), w')"
    and acts: "new_actions example_world w' =
          map (create_call example_cfg)
            (filter (\<lambda>d. fst d \<notin> set (managed_names example_cfg (monitor_list example_world))) ?D)"
    and again: "\<forall>ids w2.
            length ids = length (new_actions example_world w') \<and> distinct ids
            \<and> set ids \<inter> fst ` set (monitor_list example_world) = {}
            \<and> monitor_list w2 =
                after_creates (monitor_list example_world)
                  (zip ids (created_payloads (new_actions example_world w')))
            \<longrightarrow> cmd_sync example_cfg example_env w2 = (Inr (Synced 0 (length ?D)), w2)
                \<and> new_actions w2 (snd (cmd_sync example_cfg example_env w2)) = []"
    by blast
  have a: "new_actions example_world w' = [create_call example_cfg (''b.com'', ''http://b.com'')]"
    unfolding acts m by simp
  have s: "stored_monitor (monitor_payload example_cfg ''b.com'' ''http://b.com'')
      = example_monitor ''b.com'' ''http://b.com'' ''http'' 1"
    by (simp add: stored_monitor_def monitor_payload_def example_monitor_def example_cfg_def)
  have l: "monitor_list second_world =
      after_creates (monitor_list example_world)
        (zip [10] (created_payloads (new_actions example_world w')))"
    unfolding a
    by (simp add: second_world_def after_creates_def created_payloads_def create_call_def
        map_filter_simps example_world_def example_directory_def s)
  have f: "set [10] \<inter> fst ` set (monitor_list example_world) = {}"
    by (simp add: example_world_def example_directory_def)
  have "cmd_sync example_cfg example_env second_world = (Inr (Synced 0 (length ?D)), second_world)"
    using again [rule_format, of "[10]" second_world] a l f by simp
  with d n m run a show ?thesis
    by simp
qed

lemma filtered_subset: "p \<in> set (filtered cfg M) \<Longrightarrow> p \<in> set M \<and> managed cfg (snd p)"
  by (simp add: filtered_def)

lemma same_key_same_pair:
  "distinct (map fst M) \<Longrightarrow> p \<in> set M \<Longrightarrow> q \<in> set M \<Longrightarrow> fst p = fst q \<Longrightarrow> p = q"
  by (metis eq_key_imp_eq_value prod.collapse)

lemma existing_ids_distinct:
  assumes ex: "get_existing_monitors cfg w = Inr ex" and ids: "distinct (map fst (monitor_list w))"
  shows "distinct (map (\<lambda>x. fst (snd x)) ex)"
proof -
  have "distinct ex"
    using existing_distinct [OF ex] by (rule distinct_map [THEN iffD1, THEN conjunct1])
  moreover have "inj_on (\<lambda>x. fst (snd x)) (set ex)"
  proof (rule inj_onI)
    fix x y assume x: "x \<in> set ex" and y: "y \<in> set ex" and eq: "fst (snd x) = fst (snd y)"
    obtain p where p: "p \<in> set (filtered cfg (monitor_list w))" "entry_of p = x"
      using existing_entries [OF ex x] by blast
    obtain q where q: "q \<in> set (filtered cfg (monitor_list w))" "entry_of q = y"
      using existing_entries [OF ex y] by blast
    have "fst p = fst q"
      using eq p(2) q(2) by (auto simp: entry_of_def)
    then have "p = q"
      using same_key_same_pair [OF ids] filtered_subset p(1) q(1) by blast
    then show "x = y"
      using p(2) q(2) by simp
  qed
  ultimately show ?thesis
    by (simp add: distinct_map)
qed

lemma delete_set_ids: "map fst (delete_set D ex) = map (\<lambda>x. fst (snd x)) (filter (\<lambda>x. \<not> has_key D (fst x)) ex)"
  by (simp add: delete_set_def)

lemma delete_set_ids_distinct:
  assumes "get_existing_monitors cfg w = Inr ex" and "distinct (map fst (monitor_list w))"
  shows "distinct (map fst (delete_set D ex))"
proof -
  have "distinct (map (\<lambda>x. fst (snd x)) ex)"
    using assms by (rule existing_ids_distinct)
  then have "distinct (map (\<lambda>x. fst (snd x)) (filter (\<lambda>x. \<not> has_key D (fst x)) ex))"
    by (rule distinct_map_filter)
  then show ?thesis
    by (simp only: delete_set_ids)
qed

lemma delete_set_obsolete:
  assumes ex: "get_existing_monitors cfg w = Inr ex"
  shows "set (delete_set D ex) \<subseteq> set (obsolete cfg D (monitor_list w))"
proof
  fix y assume "y \<in> set (delete_set D ex)"
  then obtain x where x: "x \<in> set ex" "\<not> has_key D (fst x)" "y = (fst (snd x), fst x, snd (snd x))"
    by (auto simp: delete_set_def)
  obtain p where p: "p \<in> set (filtered cfg (monitor_list w))" "entry_of p = x"
    using existing_entries [OF ex x(1)] by blast
  have "fst p = fst (snd x)"
    using p(2) by (auto simp: entry_of_def)
  then show "y \<in> set (obsolete cfg D (monitor_list w))"
    using p x by (auto simp: obsolete_def intro!: image_eqI [of _ _ p])
qed

lemma delete_set_unique:
  assumes ex: "get_existing_monitors cfg w = Inr ex"
    and u: "distinct (managed_names cfg (monitor_list w))"
  shows "delete_set D ex = obsolete cfg D (monitor_list w)"
proof -
  have "ex = map entry_of (filtered cfg (monitor_list w))"
    using ex u by (rule existing_unique)
  then show ?thesis
    by (simp add: delete_set_def obsolete_def filter_map comp_def entry_of_def)
qed

lemma delete_set_spares:
  assumes ex: "get_existing_monitors cfg w = Inr ex" and ids: "distinct (map fst (monitor_list w))"
    and p: "p \<in> set (monitor_list w)" and n: "m_name (snd p) = Some n" and k: "has_key D n"
  shows "fst p \<notin> fst ` set (delete_set D ex)"
proof
  assume "fst p \<in> fst ` set (delete_set D ex)"
  then obtain x where x: "x \<in> set ex" "\<not> has_key D (fst x)" "fst (snd x) = fst p"
    by (auto simp: delete_set_def)
  obtain q where q: "q \<in> set (filtered cfg (monitor_list w))" "entry_of q = x"
    using existing_entries [OF ex x(1)] by blast
  have "fst q = fst p"
    using q(2) x(3) by (auto simp: entry_of_def)
  then have "q = p"
    using same_key_same_pair [OF ids] filtered_subset q(1) p by blast
  then have "fst x = n"
    using q(2) n by (auto simp: entry_of_def)
  with x(2) k show False by simp
qed

lemma delete_call_in:
  "Call (DeleteMonitor i) \<in> set (map delete_call ds) \<longleftrightarrow> i \<in> fst ` set ds"
  by (auto simp: delete_call_def)

lemma fold_update_lookup:
  "map_of (fold (\<lambda>p. AList.update (f p) (g p)) ps acc) k =
     (if filter (\<lambda>p. f p = k) ps = [] then map_of acc k
      else Some (g (last (filter (\<lambda>p. f p = k) ps))))"
proof (induction ps arbitrary: acc)
  case Nil
  show ?case by simp
next
  case (Cons p ps)
  show ?case
    using Cons.IH [of "AList.update (f p) (g p) acc"]
    by (simp add: update_conv')
qed

lemma effective_subset: "p \<in> set (effective cfg M) \<Longrightarrow> p \<in> set (filtered cfg M)"
  by (simp add: effective_def)

lemma filtered_effective: "filtered cfg (effective cfg M) = effective cfg M"
proof -
  have "\<forall>p\<in>set (effective cfg M). managed cfg (snd p)"
    using effective_subset filtered_subset by blast
  then show ?thesis
    by (rule filtered_all)
qed

lemma existing_effective:
  assumes ex: "get_existing_monitors cfg w = Inr ex"
  shows "set ex = entry_of ` set (effective cfg (monitor_list w))"
proof -
  let ?F = "filtered cfg (monitor_list w)"
  let ?f = "\<lambda>p. fst (entry_of p)" and ?g = "\<lambda>p. snd (entry_of p)"
  have e: "ex = fold (\<lambda>p. AList.update (?f p) (?g p)) ?F []"
    using ex by (auto simp: get_existing_monitors_eq split: if_splits)
  have d: "distinct (map fst ex)"
    using ex by (rule existing_distinct)
  have look: "map_of ex k =
      (if filter (\<lambda>p. ?f p = k) ?F = [] then None else Some (?g (last (filter (\<lambda>p. ?f p = k) ?F))))" for k
    unfolding e by (simp add: fold_update_lookup)
  show ?thesis
  proof (intro set_eqI iffI)
    fix x assume "x \<in> set ex"
    then have m: "map_of ex (fst x) = Some (snd x)"
      using d by (simp add: map_of_eq_Some_iff)
    let ?S = "filter (\<lambda>p. ?f p = fst x) ?F"
    have ne: "?S \<noteq> []" and v: "snd x = ?g (last ?S)"
      using m look [of "fst x"] by (auto split: if_splits)
    let ?p = "last ?S"
    have "?p \<in> set ?S"
      using ne by (rule last_in_set)
    then have pF: "?p \<in> set ?F" and fp: "?f ?p = fst x"
      by simp_all
    have "?p = last (filter (\<lambda>q. ?f q = ?f ?p) ?F)"
      by (simp only: fp)
    then have "?p \<in> set (effective cfg (monitor_list w))"
      using pF by (simp add: effective_def)
    moreover have "entry_of ?p = x"
      using fp v by (simp add: prod_eq_iff)
    ultimately show "x \<in> entry_of ` set (effective cfg (monitor_list w))"
      by (intro image_eqI [of _ _ ?p]) simp_all
  next
    fix x assume "x \<in> entry_of ` set (effective cfg (monitor_list w))"
    then obtain p where p: "p \<in> set ?F" "p = last (filter (\<lambda>q. ?f q = ?f p) ?F)" "x = entry_of p"
      by (auto simp: effective_def)
    have ne: "filter (\<lambda>q. ?f q = ?f p) ?F \<noteq> []"
      using p(1) by (auto simp: filter_empty_conv)
    have "map_of ex (?f p) = Some (?g p)"
      using look [of "?f p"] ne p(2) by simp
    then have "(?f p, ?g p) \<in> set ex"
      by (rule map_of_SomeD)
    then show "x \<in> set ex"
      using p(3) by simp
  qed
qed

lemma delete_set_effective:
  assumes ex: "get_existing_monitors cfg w = Inr ex"
  shows "set (delete_set D ex) = set (obsolete cfg D (effective cfg (monitor_list w)))"
proof -
  let ?h = "\<lambda>x :: string \<times> int \<times> string. (fst (snd x), fst x, snd (snd x))"
  have "set (delete_set D ex) = ?h ` {x \<in> set ex. \<not> has_key D (fst x)}"
    by (simp add: delete_set_def)
  also have "\<dots> = ?h ` {x \<in> entry_of ` set (effective cfg (monitor_list w)). \<not> has_key D (fst x)}"
    by (simp only: existing_effective [OF ex])
  also have "\<dots> = (\<lambda>p. ?h (entry_of p)) `
      {p \<in> set (effective cfg (monitor_list w)). \<not> has_key D (fst (entry_of p))}"
    by blast
  also have "\<dots> = set (obsolete cfg D (effective cfg (monitor_list w)))"
    by (simp add: obsolete_def filtered_effective entry_of_def)
  finally show ?thesis .
qed

lemma duplicate_existing:
  "get_existing_monitors example_cfg duplicate_world
     = Inr [(''x.com'', 7, ''http://x.com''), (''y.com'', 6, ''http://y.com'')]"
  by (simp add: get_existing_monitors_def duplicate_world_def duplicate_directory_def
      example_monitor_def example_cfg_def)

lemma duplicate_effective:
  "effective example_cfg (monitor_list duplicate_world)
     = [(6, example_monitor ''y.com'' ''http://y.com'' ''http'' 1),
        (7, example_monitor ''x.com'' ''http://x.com'' ''http'' 1)]"
  by (simp add: effective_def duplicate_world_def duplicate_directory_def filtered_def managed_def
      example_monitor_def example_cfg_def entry_of_def)

lemma duplicate_facts:
  "named example_cfg (monitor_list duplicate_world)"
  "distinct (map fst (monitor_list duplicate_world))"
  by (simp_all add: named_def duplicate_world_def duplicate_directory_def filtered_def managed_def
      example_monitor_def example_cfg_def)

text \<open>
  C2, as the claim states it, fails: in a directory where two filtered monitors bear the
  name \<open>x.com\<close>, which is not a key of \<open>D\<close>, the delete-set of both modes holds the
  later one only, and the earlier one, a filtered monitor whose name is not a key of
  \<open>D\<close>, gets no delete call.
\<close>

theorem cleanup_duplicate_name_counterexample:
  "load_domains example_env = Inr [(''a.com'', ''http://new.a.com''), (''b.com'', ''http://b.com'')]
   \<and> named example_cfg (monitor_list duplicate_world)
   \<and> distinct (map fst (monitor_list duplicate_world))
   \<and> obsolete example_cfg [(''a.com'', ''http://new.a.com''), (''b.com'', ''http://b.com'')]
         (monitor_list duplicate_world)
       = [(5, ''x.com'', ''http://x.com''), (6, ''y.com'', ''http://y.com''), (7, ''x.com'', ''http://x.com'')]
   \<and> cmd_cleanup_preview example_cfg example_env duplicate_world
       = (Inr (Preview [(7, ''x.com'', ''http://x.com''), (6, ''y.com'', ''http://y.com'')]), duplicate_world)
   \<and> new_actions duplicate_world (snd (cmd_cleanup_confirm example_cfg example_env duplicate_world))
       = [Call (DeleteMonitor 7), Call (DeleteMonitor 6)]"
proof -
  let ?D = "[(''a.com'', ''http://new.a.com''), (''b.com'', ''http://b.com'')]"
  let ?ex = "[(''x.com'', 7 :: int, ''http://x.com''), (''y.com'', 6, ''http://y.com'')]"
  have d: "load_domains example_env = Inr ?D"
    unfolding load_domains_def example_env_def by code_simp
  have n: "named example_cfg (monitor_list duplicate_world)"
    by (simp add: named_def duplicate_world_def duplicate_directory_def filtered_def managed_def
        example_monitor_def example_cfg_def)
  have i: "distinct (map fst (monitor_list duplicate_world))"
    by (simp add: duplicate_world_def duplicate_directory_def)
  have ob: "obsolete example_cfg ?D (monitor_list duplicate_world)
       = [(5, ''x.com'', ''http://x.com''), (6, ''y.com'', ''http://y.com''), (7, ''x.com'', ''http://x.com'')]"
    by (simp add: obsolete_def duplicate_world_def duplicate_directory_def filtered_def managed_def
        example_monitor_def example_cfg_def entry_of_def has_key_def)
  have ds: "delete_set ?D ?ex = [(7, ''x.com'', ''http://x.com''), (6, ''y.com'', ''http://y.com'')]"
    by (simp add: delete_set_def has_key_def)
  have p: "cmd_cleanup_preview example_cfg example_env duplicate_world
       = (Inr (Preview [(7, ''x.com'', ''http://x.com''), (6, ''y.com'', ''http://y.com'')]), duplicate_world)"
    using cmd_cleanup_preview_eq [OF d duplicate_existing] by (simp only: ds)
  have c: "new_actions duplicate_world (snd (cmd_cleanup_confirm example_cfg example_env duplicate_world))
       = [Call (DeleteMonitor 7), Call (DeleteMonitor 6)]"
    by (simp add: cmd_cleanup_confirm_eq [OF d duplicate_existing] new_actions_update ds delete_call_def)
  from d n i ob p c show ?thesis
    by blast
qed

text \<open>
  C2, amended. With the domains file loaded as \<open>D\<close> and a directory (a dictionary, so its
  identifiers are distinct) whose filtered monitors all carry a name,
  \<open>cmd_cleanup_preview\<close> and \<open>cmd_cleanup_confirm\<close> work on the same delete-set
  \<open>ds\<close>: the preview reports it and issues no call, the confirmation issues the delete
  calls of its members, one call for each, on distinct identifiers. The delete-set holds
  the filtered monitors whose name is not a key of \<open>D\<close> and that no later filtered
  monitor of the same name follows in the directory; when the names of the filtered
  monitors are distinct, it is the list of all filtered monitors whose name is not a key of
  \<open>D\<close>. No delete call is issued for a monitor whose name is a key of \<open>D\<close>.
\<close>

theorem cleanup_preview_and_confirm_agree:
  assumes "load_domains e = Inr D" and "named cfg (monitor_list w)"
    and "distinct (map fst (monitor_list w))"
  shows "\<exists>ds deleted w'.
      cmd_cleanup_preview cfg e w = (Inr (Preview ds), w)
      \<and> cmd_cleanup_confirm cfg e w = (Inr (Removed deleted), w')
      \<and> new_actions w w' = map delete_call ds
      \<and> distinct (map fst ds)
      \<and> set ds = set (obsolete cfg D (effective cfg (monitor_list w)))
      \<and> set ds \<subseteq> set (obsolete cfg D (monitor_list w))
      \<and> (distinct (managed_names cfg (monitor_list w)) \<longrightarrow> ds = obsolete cfg D (monitor_list w))
      \<and> (\<forall>p n. p \<in> set (monitor_list w) \<and> m_name (snd p) = Some n \<and> has_key D n
             \<longrightarrow> Call (DeleteMonitor (fst p)) \<notin> set (new_actions w w'))"
proof -
  obtain ex where ex: "get_existing_monitors cfg w = Inr ex"
    using assms(2) by (simp add: get_existing_monitors_eq)
  let ?ds = "delete_set D ex"
  let ?w' = "w\<lparr>trace := trace w @ map delete_call ?ds\<rparr>"
  have a: "cmd_cleanup_preview cfg e w = (Inr (Preview ?ds), w)"
    using assms(1) ex by (rule cmd_cleanup_preview_eq)
  have b: "cmd_cleanup_confirm cfg e w = (Inr (Removed (fst (confirm_loop e D ex 0 w))), ?w')"
    using assms(1) ex by (rule cmd_cleanup_confirm_eq)
  have c: "new_actions w ?w' = map delete_call ?ds"
    by (rule new_actions_update)
  have d: "distinct (map fst ?ds)"
    using ex assms(3) by (rule delete_set_ids_distinct)
  have f: "set ?ds \<subseteq> set (obsolete cfg D (monitor_list w))"
    using ex by (rule delete_set_obsolete)
  have k: "set ?ds = set (obsolete cfg D (effective cfg (monitor_list w)))"
    using ex by (rule delete_set_effective)
  have g: "distinct (managed_names cfg (monitor_list w)) \<longrightarrow> ?ds = obsolete cfg D (monitor_list w)"
    using ex by (simp add: delete_set_unique)
  have h: "\<forall>p n. p \<in> set (monitor_list w) \<and> m_name (snd p) = Some n \<and> has_key D n
             \<longrightarrow> Call (DeleteMonitor (fst p)) \<notin> set (new_actions w ?w')"
    unfolding c delete_call_in using delete_set_spares [OF ex assms(3)] by blast
  from a b c d k f g h show ?thesis by blast
qed

theorem cleanup_preview_and_confirm_agree_witness:
  "load_domains example_env = Inr [(''a.com'', ''http://new.a.com''), (''b.com'', ''http://b.com'')]
   \<and> named example_cfg (monitor_list example_world)
   \<and> distinct (map fst (monitor_list example_world))
   \<and> distinct (managed_names example_cfg (monitor_list example_world))
   \<and> cmd_cleanup_preview example_cfg example_env example_world
       = (Inr (Preview [(2, ''c.com'', ''http://c.com'')]), example_world)
   \<and> new_actions example_world (snd (cmd_cleanup_confirm example_cfg example_env example_world))
       = [Call (DeleteMonitor 2)]
   \<and> (\<exists>ds. cmd_cleanup_preview example_cfg example_env duplicate_world = (Inr (Preview ds), duplicate_world)
       \<and> set ds = {(6, ''y.com'', ''http://y.com''), (7, ''x.com'', ''http://x.com'')})"
proof -
  have first:
    "load_domains example_env = Inr [(''a.com'', ''http://new.a.com''), (''b.com'', ''http://b.com'')]
     \<and> named example_cfg (monitor_list example_world)
     \<and> distinct (map fst (monitor_list example_world))
     \<and> distinct (managed_names example_cfg (monitor_list example_world))
     \<and> cmd_cleanup_preview example_cfg example_env example_world
         = (Inr (Preview [(2, ''c.com'', ''http://c.com'')]), example_world)
     \<and> new_actions example_world (snd (cmd_cleanup_confirm example_cfg example_env example_world))
         = [Call (DeleteMonitor 2)]"
  proof -
    let ?D = "[(''a.com'', ''http://new.a.com''), (''b.com'', ''http://b.com'')]"
    have d: "load_domains example_env = Inr ?D"
      unfolding load_domains_def example_env_def by code_simp
    have n: "named example_cfg (monitor_list example_world)"
      by (simp add: named_def example_world_def example_directory_def filtered_def managed_def
          example_monitor_def example_cfg_def)
    have i: "distinct (map fst (monitor_list example_world))"
      by (simp add: example_world_def example_directory_def)
    have m: "distinct (managed_names example_cfg (monitor_list example_world))"
      by (simp add: managed_names_def example_world_def example_directory_def filtered_def managed_def
          example_monitor_def example_cfg_def entry_of_def)
    have ob: "obsolete example_cfg ?D (monitor_list example_world) = [(2, ''c.com'', ''http://c.com'')]"
      by (simp add: obsolete_def example_world_def example_directory_def filtered_def managed_def
          example_monitor_def example_cfg_def entry_of_def has_key_def)
    from cleanup_preview_and_confirm_agree [OF d n i] obtain ds deleted w' where
      p: "cmd_cleanup_preview example_cfg example_env example_world = (Inr (Preview ds), example_world)"
      and c: "cmd_cleanup_confirm example_cfg example_env example_world = (Inr (Removed deleted), w')"
      and a: "new_actions example_world w' = map delete_call ds"
      and u: "distinct (managed_names example_cfg (monitor_list example_world))
                \<longrightarrow> ds = obsolete example_cfg ?D (monitor_list example_world)"
      by blast
    have "ds = [(2, ''c.com'', ''http://c.com'')]"
      using u m ob by simp
    with d n i m p c a show ?thesis
      by (simp add: delete_call_def)
  qed
  have second:
    "\<exists>ds. cmd_cleanup_preview example_cfg example_env duplicate_world = (Inr (Preview ds), duplicate_world)
         \<and> set ds = {(6, ''y.com'', ''http://y.com''), (7, ''x.com'', ''http://x.com'')}"
  proof -
    let ?D = "[(''a.com'', ''http://new.a.com''), (''b.com'', ''http://b.com'')]"
    have d: "load_domains example_env = Inr ?D"
      unfolding load_domains_def example_env_def by code_simp
    have ob: "obsolete example_cfg ?D (effective example_cfg (monitor_list duplicate_world))
        = [(6, ''y.com'', ''http://y.com''), (7, ''x.com'', ''http://x.com'')]"
      unfolding duplicate_effective
      by (simp add: obsolete_def filtered_def managed_def example_monitor_def example_cfg_def
          entry_of_def has_key_def)
    from cleanup_preview_and_confirm_agree [OF d duplicate_facts] obtain ds deleted w' where
      p: "cmd_cleanup_preview example_cfg example_env duplicate_world = (Inr (Preview ds), duplicate_world)"
      and e: "set ds = set (obsolete example_cfg ?D (effective example_cfg (monitor_list duplicate_world)))"
      by blast
    have "set ds = {(6, ''y.com'', ''http://y.com''), (7, ''x.com'', ''http://x.com'')}"
      unfolding e ob by simp
    with p show ?thesis by blast
  qed
  from first second show ?thesis
    by blast
qed

lemma filtered_with_urls: "filtered cfg (with_urls f M) = with_urls f (filtered cfg M)"
  by (induction M) (simp_all add: filtered_def with_urls_def managed_def)

lemma named_with_urls: "named cfg (with_urls f M) = named cfg M"
  by (simp add: named_def filtered_with_urls) (simp add: with_urls_def list_all_iff)

lemma update_project:
  "map (\<lambda>x. (fst x, pr (snd x))) (AList.update k v al)
     = AList.update k (pr v) (map (\<lambda>x. (fst x, pr (snd x))) al)"
  by (induction al) simp_all

lemma fold_update_project:
  "map (\<lambda>x. (fst x, pr (snd x))) (fold (\<lambda>p. AList.update (f p) (g p)) ps acc)
     = fold (\<lambda>p. AList.update (f p) (pr (g p))) ps (map (\<lambda>x. (fst x, pr (snd x))) acc)"
  by (induction ps arbitrary: acc) (simp_all add: update_project)

lemma name_and_id_project: "map name_and_id ex = map (\<lambda>x. (fst x, fst (snd x))) ex"
  by (simp add: name_and_id_def)

lemma existing_with_urls:
  assumes ex: "get_existing_monitors cfg w = Inr ex"
    and m: "monitor_list w' = with_urls f (monitor_list w)"
  shows "\<exists>ex'. get_existing_monitors cfg w' = Inr ex' \<and> map name_and_id ex' = map name_and_id ex"
proof -
  let ?F = "filtered cfg (monitor_list w)"
  have n: "named cfg (monitor_list w)"
    using ex by (rule existing_named)
  have e1: "ex = fold (\<lambda>p. AList.update (fst (entry_of p)) (snd (entry_of p))) ?F []"
    using ex n by (simp add: get_existing_monitors_eq)
  let ?ex' = "fold (\<lambda>p. AList.update (fst (entry_of p)) (snd (entry_of p))) (with_urls f ?F) []"
  have e2: "get_existing_monitors cfg w' = Inr ?ex'"
    using n by (simp add: get_existing_monitors_eq m named_with_urls filtered_with_urls)
  have "?ex' = fold (\<lambda>p. AList.update (fst (entry_of p)) (fst p, case f (fst p) (snd p) of None \<Rightarrow> [] | Some u \<Rightarrow> u)) ?F []"
    by (simp add: with_urls_def fold_map comp_def entry_of_def)
  then have "map name_and_id ?ex' = fold (\<lambda>p. AList.update (fst (entry_of p)) (fst p)) ?F []"
    by (simp add: name_and_id_project fold_update_project [where pr = fst])
  moreover have "map name_and_id ex = fold (\<lambda>p. AList.update (fst (entry_of p)) (fst p)) ?F []"
    by (simp add: e1 name_and_id_project fold_update_project [where pr = fst] entry_of_def)
  ultimately show ?thesis
    using e2 by simp
qed

lemma has_key_map_fst: "map fst D' = map fst D \<Longrightarrow> has_key D' = has_key D"
proof -
  assume a: "map fst D' = map fst D"
  have "set (map fst D') = set (map fst D)"
    by (simp only: a)
  then have "fst ` set D' = fst ` set D"
    by (simp only: set_map)
  then show ?thesis
    by (simp add: has_key_def fun_eq_iff)
qed

lemma has_key_name_and_id: "map name_and_id ex' = map name_and_id ex \<Longrightarrow> has_key ex' = has_key ex"
proof -
  assume "map name_and_id ex' = map name_and_id ex"
  then have "map fst (map name_and_id ex') = map fst (map name_and_id ex)"
    by (rule arg_cong)
  then have "map fst ex' = map fst ex"
    by (simp add: name_and_id_def comp_def)
  then show ?thesis
    by (rule has_key_map_fst)
qed

lemma create_set_names:
  "map fst (create_set D ex) = filter (\<lambda>n. \<not> has_key ex n) (map fst D)"
  by (induction D) (simp_all add: create_set_def)

lemma delete_set_id_and_name:
  "map id_and_name (delete_set D ex)
     = map (\<lambda>x. (snd x, fst x)) (filter (\<lambda>x. \<not> has_key D (fst x)) (map name_and_id ex))"
  by (induction ex) (simp_all add: delete_set_def id_and_name_def name_and_id_def)

lemma created_names_eq:
  "map created_name (map (create_call cfg) cs) = map Some (map fst cs)"
  by (induction cs) (simp_all add: created_name_create_call)

lemma deleted_ids_eq:
  "map deleted_id (map delete_call ds) = map Some (map fst (map id_and_name ds))"
  by (induction ds) (simp_all add: delete_call_def id_and_name_def)

lemma plan_ignores_urls:
  assumes D: "load_domains e = Inr D" and ex: "get_existing_monitors cfg w = Inr ex"
    and D': "load_domains e' = Inr D'" and keys: "map fst D' = map fst D"
    and m: "monitor_list w' = with_urls f (monitor_list w)"
  shows "\<exists>ex'. get_existing_monitors cfg w' = Inr ex'
     \<and> map fst (create_set D' ex') = map fst (create_set D ex)
     \<and> map id_and_name (delete_set D' ex') = map id_and_name (delete_set D ex)"
proof -
  obtain ex' where ex': "get_existing_monitors cfg w' = Inr ex'"
    and p: "map name_and_id ex' = map name_and_id ex"
    using existing_with_urls [OF ex m] by blast
  have "map fst (create_set D' ex') = map fst (create_set D ex)"
    by (simp add: create_set_names keys has_key_name_and_id [OF p])
  moreover have "map id_and_name (delete_set D' ex') = map id_and_name (delete_set D ex)"
    by (simp add: delete_set_id_and_name p has_key_map_fst [OF keys])
  ultimately show ?thesis
    using ex' by blast
qed

lemma cmd_sync_actions:
  "load_domains e = Inr D \<Longrightarrow> get_existing_monitors cfg w = Inr ex \<Longrightarrow>
   new_actions w (snd (cmd_sync cfg e w)) = map (create_call cfg) (create_set D ex)"
  by (simp add: cmd_sync_eq new_actions_update)

lemma cmd_cleanup_confirm_actions:
  "load_domains e = Inr D \<Longrightarrow> get_existing_monitors cfg w = Inr ex \<Longrightarrow>
   new_actions w (snd (cmd_cleanup_confirm cfg e w)) = map delete_call (delete_set D ex)"
  by (simp add: cmd_cleanup_confirm_eq new_actions_update)

lemma filtered_name_is_key:
  assumes ex: "get_existing_monitors cfg w = Inr ex"
    and p: "p \<in> set (filtered cfg (monitor_list w))" and n: "m_name (snd p) = Some n"
  shows "has_key ex n"
proof -
  have "fst (entry_of p) = n"
    using n by (simp add: entry_of_def)
  then have "n \<in> set (managed_names cfg (monitor_list w))"
    using p by (auto simp: managed_names_def)
  then show ?thesis
    using has_key_existing [OF ex] by simp
qed

text \<open>
  C3. With the domains file loaded as \<open>D\<close> and a directory (with distinct identifiers)
  whose filtered monitors all carry a name: for a filtered monitor whose name is a key of
  \<open>D\<close>, \<open>cmd_sync\<close> issues no create call for that name, \<open>cmd_cleanup_confirm\<close>
  issues no delete call for its identifier and the delete-set of the preview does not hold
  it, whatever its URL and the URL in \<open>D\<close> are. Moreover the names created and the
  identifiers and names of the delete-set do not change when the URLs of the monitors are
  replaced at will and the domains file is replaced by one with the same names in the same
  order.
\<close>

theorem identity_is_the_name:
  assumes "load_domains e = Inr D" and "named cfg (monitor_list w)"
    and "distinct (map fst (monitor_list w))"
  shows "(\<forall>p n. p \<in> set (filtered cfg (monitor_list w)) \<and> m_name (snd p) = Some n \<and> has_key D n \<longrightarrow>
            Some n \<notin> set (map created_name (new_actions w (snd (cmd_sync cfg e w))))
            \<and> Some (fst p) \<notin> set (map deleted_id (new_actions w (snd (cmd_cleanup_confirm cfg e w))))
            \<and> (\<exists>ds. cmd_cleanup_preview cfg e w = (Inr (Preview ds), w) \<and> fst p \<notin> fst ` set ds))
       \<and> (\<forall>e' D' w' f.
            load_domains e' = Inr D' \<and> map fst D' = map fst D
            \<and> monitor_list w' = with_urls f (monitor_list w) \<longrightarrow>
            map created_name (new_actions w' (snd (cmd_sync cfg e' w')))
              = map created_name (new_actions w (snd (cmd_sync cfg e w)))
            \<and> map deleted_id (new_actions w' (snd (cmd_cleanup_confirm cfg e' w')))
              = map deleted_id (new_actions w (snd (cmd_cleanup_confirm cfg e w)))
            \<and> (\<exists>ds ds'. cmd_cleanup_preview cfg e w = (Inr (Preview ds), w)
                  \<and> cmd_cleanup_preview cfg e' w' = (Inr (Preview ds'), w')
                  \<and> map id_and_name ds' = map id_and_name ds))"
proof -
  obtain ex where ex: "get_existing_monitors cfg w = Inr ex"
    using assms(2) by (simp add: get_existing_monitors_eq)
  note D = assms(1)
  have sync: "new_actions w (snd (cmd_sync cfg e w)) = map (create_call cfg) (create_set D ex)"
    using D ex by (rule cmd_sync_actions)
  have conf: "new_actions w (snd (cmd_cleanup_confirm cfg e w)) = map delete_call (delete_set D ex)"
    using D ex by (rule cmd_cleanup_confirm_actions)
  have prev: "cmd_cleanup_preview cfg e w = (Inr (Preview (delete_set D ex)), w)"
    using D ex by (rule cmd_cleanup_preview_eq)
  have one: "\<forall>p n. p \<in> set (filtered cfg (monitor_list w)) \<and> m_name (snd p) = Some n \<and> has_key D n \<longrightarrow>
            Some n \<notin> set (map created_name (new_actions w (snd (cmd_sync cfg e w))))
            \<and> Some (fst p) \<notin> set (map deleted_id (new_actions w (snd (cmd_cleanup_confirm cfg e w))))
            \<and> (\<exists>ds. cmd_cleanup_preview cfg e w = (Inr (Preview ds), w) \<and> fst p \<notin> fst ` set ds)"
  proof (intro allI impI)
    fix p :: "int \<times> monitor" and n
    assume h: "p \<in> set (filtered cfg (monitor_list w)) \<and> m_name (snd p) = Some n \<and> has_key D n"
    have k: "has_key ex n"
      using ex h by (intro filtered_name_is_key [of cfg w ex p n]) simp_all
    then have "n \<notin> set (map fst (create_set D ex))"
      by (simp add: create_set_names)
    then have c: "Some n \<notin> set (map created_name (new_actions w (snd (cmd_sync cfg e w))))"
      unfolding sync created_names_eq by auto
    have "p \<in> set (monitor_list w)"
      using h filtered_subset by blast
    then have s: "fst p \<notin> fst ` set (delete_set D ex)"
      using h by (intro delete_set_spares [OF ex assms(3), of p n D]) simp_all
    then have "fst p \<notin> set (map fst (map id_and_name (delete_set D ex)))"
      by (simp add: id_and_name_def comp_def)
    then have d: "Some (fst p) \<notin> set (map deleted_id (new_actions w (snd (cmd_cleanup_confirm cfg e w))))"
      unfolding conf deleted_ids_eq by auto
    from c d prev s
    show "Some n \<notin> set (map created_name (new_actions w (snd (cmd_sync cfg e w))))
            \<and> Some (fst p) \<notin> set (map deleted_id (new_actions w (snd (cmd_cleanup_confirm cfg e w))))
            \<and> (\<exists>ds. cmd_cleanup_preview cfg e w = (Inr (Preview ds), w) \<and> fst p \<notin> fst ` set ds)"
      by blast
  qed
  have two: "\<forall>e' D' w' f.
            load_domains e' = Inr D' \<and> map fst D' = map fst D
            \<and> monitor_list w' = with_urls f (monitor_list w) \<longrightarrow>
            map created_name (new_actions w' (snd (cmd_sync cfg e' w')))
              = map created_name (new_actions w (snd (cmd_sync cfg e w)))
            \<and> map deleted_id (new_actions w' (snd (cmd_cleanup_confirm cfg e' w')))
              = map deleted_id (new_actions w (snd (cmd_cleanup_confirm cfg e w)))
            \<and> (\<exists>ds ds'. cmd_cleanup_preview cfg e w = (Inr (Preview ds), w)
                  \<and> cmd_cleanup_preview cfg e' w' = (Inr (Preview ds'), w')
                  \<and> map id_and_name ds' = map id_and_name ds)"
  proof (intro allI impI)
    fix e' :: env and D' :: "(string \<times> string) list" and w' :: world and f
    assume h: "load_domains e' = Inr D' \<and> map fst D' = map fst D
            \<and> monitor_list w' = with_urls f (monitor_list w)"
    then have D': "load_domains e' = Inr D'" and keys: "map fst D' = map fst D"
      and m: "monitor_list w' = with_urls f (monitor_list w)"
      by simp_all
    obtain ex' where ex': "get_existing_monitors cfg w' = Inr ex'"
      and cs: "map fst (create_set D' ex') = map fst (create_set D ex)"
      and ds: "map id_and_name (delete_set D' ex') = map id_and_name (delete_set D ex)"
      using plan_ignores_urls [OF D ex D' keys m] by blast
    have a: "map created_name (new_actions w' (snd (cmd_sync cfg e' w')))
              = map created_name (new_actions w (snd (cmd_sync cfg e w)))"
      unfolding sync cmd_sync_actions [OF D' ex'] created_names_eq by (simp only: cs)
    have b: "map deleted_id (new_actions w' (snd (cmd_cleanup_confirm cfg e' w')))
              = map deleted_id (new_actions w (snd (cmd_cleanup_confirm cfg e w)))"
      unfolding conf cmd_cleanup_confirm_actions [OF D' ex'] deleted_ids_eq by (simp only: ds)
    have c: "cmd_cleanup_preview cfg e' w' = (Inr (Preview (delete_set D' ex')), w')"
      using D' ex' by (rule cmd_cleanup_preview_eq)
    from a b c prev ds
    show "map created_name (new_actions w' (snd (cmd_sync cfg e' w')))
              = map created_name (new_actions w (snd (cmd_sync cfg e w)))
            \<and> map deleted_id (new_actions w' (snd (cmd_cleanup_confirm cfg e' w')))
              = map deleted_id (new_actions w (snd (cmd_cleanup_confirm cfg e w)))
            \<and> (\<exists>ds ds'. cmd_cleanup_preview cfg e w = (Inr (Preview ds), w)
                  \<and> cmd_cleanup_preview cfg e' w' = (Inr (Preview ds'), w')
                  \<and> map id_and_name ds' = map id_and_name ds)"
      by blast
  qed
  from one two show ?thesis by (rule conjI)
qed

theorem identity_is_the_name_witness:
  "load_domains example_env = Inr [(''a.com'', ''http://new.a.com''), (''b.com'', ''http://b.com'')]
   \<and> named example_cfg (monitor_list example_world)
   \<and> distinct (map fst (monitor_list example_world))
   \<and> (1, example_monitor ''a.com'' ''http://other.a.com'' ''http'' 1)
        \<in> set (filtered example_cfg (monitor_list example_world))
   \<and> has_key [(''a.com'', ''http://new.a.com''), (''b.com'', ''http://b.com'')] ''a.com''
   \<and> Some ''a.com''
        \<notin> set (map created_name (new_actions example_world (snd (cmd_sync example_cfg example_env example_world))))
   \<and> Some 1
        \<notin> set (map deleted_id
              (new_actions example_world (snd (cmd_cleanup_confirm example_cfg example_env example_world))))
   \<and> map created_name (new_actions blank_urls_world (snd (cmd_sync example_cfg example_env blank_urls_world)))
        = map created_name (new_actions example_world (snd (cmd_sync example_cfg example_env example_world)))
   \<and> map deleted_id
        (new_actions blank_urls_world (snd (cmd_cleanup_confirm example_cfg example_env blank_urls_world)))
        = map deleted_id
            (new_actions example_world (snd (cmd_cleanup_confirm example_cfg example_env example_world)))"
proof -
  let ?D = "[(''a.com'', ''http://new.a.com''), (''b.com'', ''http://b.com'')]"
  let ?p = "(1 :: int, example_monitor ''a.com'' ''http://other.a.com'' ''http'' 1)"
  have d: "load_domains example_env = Inr ?D"
    unfolding load_domains_def example_env_def by code_simp
  have n: "named example_cfg (monitor_list example_world)"
    by (simp add: named_def example_world_def example_directory_def filtered_def managed_def
        example_monitor_def example_cfg_def)
  have i: "distinct (map fst (monitor_list example_world))"
    by (simp add: example_world_def example_directory_def)
  have p: "?p \<in> set (filtered example_cfg (monitor_list example_world))"
    by (simp add: example_world_def example_directory_def filtered_def managed_def
        example_monitor_def example_cfg_def)
  have pn: "m_name (snd ?p) = Some ''a.com''"
    by (simp add: example_monitor_def)
  have k: "has_key ?D ''a.com''"
    by (simp add: has_key_def)
  have m: "monitor_list blank_urls_world = with_urls (\<lambda>i m. None) (monitor_list example_world)"
    by (simp add: blank_urls_world_def)
  note t = identity_is_the_name [OF d n i]
  have one: "Some ''a.com''
        \<notin> set (map created_name (new_actions example_world (snd (cmd_sync example_cfg example_env example_world))))
      \<and> Some (fst ?p)
        \<notin> set (map deleted_id
              (new_actions example_world (snd (cmd_cleanup_confirm example_cfg example_env example_world))))"
    using t [THEN conjunct1, rule_format, of ?p "''a.com''"] p pn k by blast
  have two: "map created_name (new_actions blank_urls_world (snd (cmd_sync example_cfg example_env blank_urls_world)))
        = map created_name (new_actions example_world (snd (cmd_sync example_cfg example_env example_world)))
      \<and> map deleted_id
        (new_actions blank_urls_world (snd (cmd_cleanup_confirm example_cfg example_env blank_urls_world)))
        = map deleted_id
            (new_actions example_world (snd (cmd_cleanup_confirm example_cfg example_env example_world)))"
    using t [THEN conjunct2, rule_format, of example_env ?D blank_urls_world "\<lambda>i m. None"] d m by blast
  from d n i p k one two show ?thesis
    by simp
qed

lemma get_existing_filtered:
  "get_existing_monitors cfg (w\<lparr>monitor_list := filtered cfg (monitor_list w)\<rparr>)
     = get_existing_monitors cfg w"
  by (simp add: get_existing_monitors_def existing_loop_filtered)

lemma new_actions_none: "new_actions w w = []"
  by (simp add: new_actions_def)

lemma sync_loop_fst_cong:
  "trace w1 = trace w2 \<Longrightarrow>
   fst (sync_loop cfg e existing domains created w1) = fst (sync_loop cfg e existing domains created w2)"
proof (induction domains arbitrary: created w1 w2)
  case Nil
  show ?case by simp
next
  case (Cons d domains)
  obtain name url where d: "d = (name, url)" by (cases d)
  let ?v1 = "w1\<lparr>trace := trace w1 @ [create_call cfg (name, url)]\<rparr>"
  let ?v2 = "w2\<lparr>trace := trace w2 @ [create_call cfg (name, url)]\<rparr>"
  have t: "trace ?v1 = trace ?v2"
    using Cons.prems by simp
  show ?case
    using Cons.IH [OF Cons.prems] Cons.IH [OF t] Cons.prems
    by (simp add: d create_monitor_eq call_with_callback_eq)
qed

lemma confirm_loop_fst_cong:
  "trace w1 = trace w2 \<Longrightarrow>
   fst (confirm_loop e domains existing deleted w1) = fst (confirm_loop e domains existing deleted w2)"
proof (induction existing arbitrary: deleted w1 w2)
  case Nil
  show ?case by simp
next
  case (Cons x existing)
  obtain name monitor_id url where x: "x = (name, monitor_id, url)" by (cases x)
  let ?v1 = "w1\<lparr>trace := trace w1 @ [Call (DeleteMonitor monitor_id)]\<rparr>"
  let ?v2 = "w2\<lparr>trace := trace w2 @ [Call (DeleteMonitor monitor_id)]\<rparr>"
  have t: "trace ?v1 = trace ?v2"
    using Cons.prems by simp
  show ?case
    using Cons.IH [OF Cons.prems] Cons.IH [OF t] Cons.prems
    by (simp add: x delete_monitor_eq call_with_callback_eq)
qed

lemma cmd_sync_cong:
  assumes t: "trace w1 = trace w2" and g: "get_existing_monitors cfg w1 = get_existing_monitors cfg w2"
  shows "fst (cmd_sync cfg e w1) = fst (cmd_sync cfg e w2)
     \<and> new_actions w1 (snd (cmd_sync cfg e w1)) = new_actions w2 (snd (cmd_sync cfg e w2))"
proof (cases "load_domains e")
  case (Inl err)
  then show ?thesis by (simp add: cmd_sync_def new_actions_none)
next
  case (Inr D)
  show ?thesis
  proof (cases "get_existing_monitors cfg w1")
    case (Inl err)
    then show ?thesis using Inr g by (simp add: cmd_sync_def new_actions_none)
  next
    case ex: (Inr ex)
    then have ex2: "get_existing_monitors cfg w2 = Inr ex"
      using g by simp
    show ?thesis
      using sync_loop_fst_cong [OF t, of cfg e ex D 0]
      by (simp add: cmd_sync_eq [OF Inr ex] cmd_sync_eq [OF Inr ex2] new_actions_update)
  qed
qed

lemma cmd_cleanup_confirm_cong:
  assumes t: "trace w1 = trace w2" and g: "get_existing_monitors cfg w1 = get_existing_monitors cfg w2"
  shows "fst (cmd_cleanup_confirm cfg e w1) = fst (cmd_cleanup_confirm cfg e w2)
     \<and> new_actions w1 (snd (cmd_cleanup_confirm cfg e w1))
         = new_actions w2 (snd (cmd_cleanup_confirm cfg e w2))"
proof (cases "load_domains e")
  case (Inl err)
  then show ?thesis by (simp add: cmd_cleanup_confirm_def new_actions_none)
next
  case (Inr D)
  show ?thesis
  proof (cases "get_existing_monitors cfg w1")
    case (Inl err)
    then show ?thesis using Inr g by (simp add: cmd_cleanup_confirm_def new_actions_none)
  next
    case ex: (Inr ex)
    then have ex2: "get_existing_monitors cfg w2 = Inr ex"
      using g by simp
    show ?thesis
      using confirm_loop_fst_cong [OF t, of e D ex 0]
      by (simp add: cmd_cleanup_confirm_eq [OF Inr ex] cmd_cleanup_confirm_eq [OF Inr ex2]
          new_actions_update)
  qed
qed

lemma cmd_cleanup_preview_cong:
  assumes g: "get_existing_monitors cfg w1 = get_existing_monitors cfg w2"
  shows "fst (cmd_cleanup_preview cfg e w1) = fst (cmd_cleanup_preview cfg e w2)
     \<and> new_actions w1 (snd (cmd_cleanup_preview cfg e w1))
         = new_actions w2 (snd (cmd_cleanup_preview cfg e w2))"
  using g by (simp add: cmd_cleanup_preview_def new_actions_none split: sum.splits)

lemma cmd_list_cong:
  assumes g: "get_existing_monitors cfg w1 = get_existing_monitors cfg w2"
  shows "fst (cmd_list cfg e w1) = fst (cmd_list cfg e w2)
     \<and> new_actions w1 (snd (cmd_list cfg e w1)) = new_actions w2 (snd (cmd_list cfg e w2))"
  using g by (simp add: cmd_list_def new_actions_none split: sum.splits)

lemma existing_entries_subset:
  "get_existing_monitors cfg w = Inr ex \<Longrightarrow> set ex \<subseteq> entry_of ` set (filtered cfg (monitor_list w))"
proof
  fix x assume ex: "get_existing_monitors cfg w = Inr ex" and x: "x \<in> set ex"
  obtain p where "p \<in> set (filtered cfg (monitor_list w))" "entry_of p = x"
    using existing_entries [OF ex x] by blast
  then show "x \<in> entry_of ` set (filtered cfg (monitor_list w))"
    by (intro image_eqI [of _ _ p]) simp_all
qed

lemma filtered_iff:
  "p \<in> set (filtered cfg M) \<longleftrightarrow>
   p \<in> set M \<and> m_parent (snd p) = Some (PARENT_GROUP_ID cfg) \<and> m_type (snd p) = Some ''http''"
  by (simp add: filtered_def managed_def)

text \<open>
  C4, as the claim states it, fails: in a directory where two monitors that pass the filter
  bear the same name, the dictionary returned by \<open>get_existing_monitors\<close> holds the
  later one only; monitor 5 satisfies the predicate and is not in it.
\<close>

theorem filter_duplicate_name_counterexample:
  "(5, example_monitor ''x.com'' ''http://x.com'' ''http'' 1) \<in> set (monitor_list duplicate_world)
   \<and> m_parent (example_monitor ''x.com'' ''http://x.com'' ''http'' 1) = Some (PARENT_GROUP_ID example_cfg)
   \<and> m_type (example_monitor ''x.com'' ''http://x.com'' ''http'' 1) = Some ''http''
   \<and> get_existing_monitors example_cfg duplicate_world
       = Inr [(''x.com'', 7, ''http://x.com''), (''y.com'', 6, ''http://y.com'')]"
  using duplicate_existing
  by (simp add: duplicate_world_def duplicate_directory_def example_monitor_def example_cfg_def)

text \<open>
  C4, amended. The monitors that pass the filter are those of the directory whose parent is
  the configured group and whose type is http. The other monitors have no part in any
  mode: on the directory with them removed, \<open>get_existing_monitors\<close> returns the same
  value and each of the four modes ends with the same result and the same calls, whatever
  the names of the removed monitors are. When every filtered monitor carries a name, the
  dictionary returned has one entry for each name of a filtered monitor: it holds exactly
  the filtered monitors that no later filtered monitor of the same name follows in the
  directory, and so exactly the filtered monitors, in their order, when their names are
  distinct.
\<close>

theorem filter_decides_the_plan:
  "(\<forall>p. p \<in> set (filtered cfg (monitor_list w)) \<longleftrightarrow>
         p \<in> set (monitor_list w) \<and> m_parent (snd p) = Some (PARENT_GROUP_ID cfg)
         \<and> m_type (snd p) = Some ''http'')
   \<and> get_existing_monitors cfg (filtered_world cfg w) = get_existing_monitors cfg w
   \<and> same_run (filtered_world cfg w) (cmd_sync cfg e (filtered_world cfg w)) w (cmd_sync cfg e w)
   \<and> same_run (filtered_world cfg w) (cmd_list cfg e (filtered_world cfg w)) w (cmd_list cfg e w)
   \<and> same_run (filtered_world cfg w) (cmd_cleanup_preview cfg e (filtered_world cfg w))
        w (cmd_cleanup_preview cfg e w)
   \<and> same_run (filtered_world cfg w) (cmd_cleanup_confirm cfg e (filtered_world cfg w))
        w (cmd_cleanup_confirm cfg e w)
   \<and> (named cfg (monitor_list w) \<longrightarrow>
        (\<exists>ex. get_existing_monitors cfg w = Inr ex
           \<and> fst ` set ex = set (managed_names cfg (monitor_list w))
           \<and> distinct (map fst ex)
           \<and> set ex = entry_of ` set (effective cfg (monitor_list w))
           \<and> set ex \<subseteq> entry_of ` set (filtered cfg (monitor_list w))
           \<and> (distinct (managed_names cfg (monitor_list w)) \<longrightarrow>
                ex = map entry_of (filtered cfg (monitor_list w)))))"
proof -
  let ?v = "filtered_world cfg w"
  have t: "trace ?v = trace w"
    by (simp add: filtered_world_def)
  have g: "get_existing_monitors cfg ?v = get_existing_monitors cfg w"
    unfolding filtered_world_def by (rule get_existing_filtered)
  have a: "\<forall>p. p \<in> set (filtered cfg (monitor_list w)) \<longleftrightarrow>
         p \<in> set (monitor_list w) \<and> m_parent (snd p) = Some (PARENT_GROUP_ID cfg)
         \<and> m_type (snd p) = Some ''http''"
    by (simp add: filtered_iff)
  have s: "same_run ?v (cmd_sync cfg e ?v) w (cmd_sync cfg e w)"
    unfolding same_run_def using t g by (rule cmd_sync_cong)
  have l: "same_run ?v (cmd_list cfg e ?v) w (cmd_list cfg e w)"
    unfolding same_run_def using g by (rule cmd_list_cong)
  have p: "same_run ?v (cmd_cleanup_preview cfg e ?v) w (cmd_cleanup_preview cfg e w)"
    unfolding same_run_def using g by (rule cmd_cleanup_preview_cong)
  have c: "same_run ?v (cmd_cleanup_confirm cfg e ?v) w (cmd_cleanup_confirm cfg e w)"
    unfolding same_run_def using t g by (rule cmd_cleanup_confirm_cong)
  have n: "named cfg (monitor_list w) \<longrightarrow>
        (\<exists>ex. get_existing_monitors cfg w = Inr ex
           \<and> fst ` set ex = set (managed_names cfg (monitor_list w))
           \<and> distinct (map fst ex)
           \<and> set ex = entry_of ` set (effective cfg (monitor_list w))
           \<and> set ex \<subseteq> entry_of ` set (filtered cfg (monitor_list w))
           \<and> (distinct (managed_names cfg (monitor_list w)) \<longrightarrow>
                ex = map entry_of (filtered cfg (monitor_list w))))"
  proof
    assume "named cfg (monitor_list w)"
    then obtain ex where ex: "get_existing_monitors cfg w = Inr ex"
      by (simp add: get_existing_monitors_eq)
    show "\<exists>ex. get_existing_monitors cfg w = Inr ex
           \<and> fst ` set ex = set (managed_names cfg (monitor_list w))
           \<and> distinct (map fst ex)
           \<and> set ex = entry_of ` set (effective cfg (monitor_list w))
           \<and> set ex \<subseteq> entry_of ` set (filtered cfg (monitor_list w))
           \<and> (distinct (managed_names cfg (monitor_list w)) \<longrightarrow>
                ex = map entry_of (filtered cfg (monitor_list w)))"
      using ex existing_keys [OF ex] existing_distinct [OF ex] existing_effective [OF ex]
        existing_entries_subset [OF ex] existing_unique [OF ex]
      by blast
  qed
  from a g s l p c n show ?thesis by blast
qed

theorem filter_decides_the_plan_witness:
  "named example_cfg (monitor_list example_world)
   \<and> distinct (managed_names example_cfg (monitor_list example_world))
   \<and> (3, example_monitor ''b.com'' ''http://b.com'' ''http'' 2) \<in> set (monitor_list example_world)
   \<and> (3, example_monitor ''b.com'' ''http://b.com'' ''http'' 2)
        \<notin> set (filtered example_cfg (monitor_list example_world))
   \<and> (4, example_monitor ''b.com'' ''http://b.com'' ''ping'' 1) \<in> set (monitor_list example_world)
   \<and> (4, example_monitor ''b.com'' ''http://b.com'' ''ping'' 1)
        \<notin> set (filtered example_cfg (monitor_list example_world))
   \<and> get_existing_monitors example_cfg example_world
        = Inr [(''a.com'', 1, ''http://other.a.com''), (''c.com'', 2, ''http://c.com'')]
   \<and> same_run (filtered_world example_cfg example_world)
        (cmd_sync example_cfg example_env (filtered_world example_cfg example_world))
        example_world (cmd_sync example_cfg example_env example_world)
   \<and> (\<exists>ex. get_existing_monitors example_cfg duplicate_world = Inr ex
       \<and> set ex = {(''y.com'', 6, ''http://y.com''), (''x.com'', 7, ''http://x.com'')})"
proof -
  have first:
    "named example_cfg (monitor_list example_world)
     \<and> distinct (managed_names example_cfg (monitor_list example_world))
     \<and> (3, example_monitor ''b.com'' ''http://b.com'' ''http'' 2) \<in> set (monitor_list example_world)
     \<and> (3, example_monitor ''b.com'' ''http://b.com'' ''http'' 2)
          \<notin> set (filtered example_cfg (monitor_list example_world))
     \<and> (4, example_monitor ''b.com'' ''http://b.com'' ''ping'' 1) \<in> set (monitor_list example_world)
     \<and> (4, example_monitor ''b.com'' ''http://b.com'' ''ping'' 1)
          \<notin> set (filtered example_cfg (monitor_list example_world))
     \<and> get_existing_monitors example_cfg example_world
          = Inr [(''a.com'', 1, ''http://other.a.com''), (''c.com'', 2, ''http://c.com'')]
     \<and> same_run (filtered_world example_cfg example_world)
          (cmd_sync example_cfg example_env (filtered_world example_cfg example_world))
          example_world (cmd_sync example_cfg example_env example_world)"
  proof -
    note t = filter_decides_the_plan [of example_cfg example_world example_env]
    have n: "named example_cfg (monitor_list example_world)"
      by (simp add: named_def example_world_def example_directory_def filtered_def managed_def
          example_monitor_def example_cfg_def)
    have m: "distinct (managed_names example_cfg (monitor_list example_world))"
      by (simp add: managed_names_def example_world_def example_directory_def filtered_def managed_def
          example_monitor_def example_cfg_def entry_of_def)
    have f: "map entry_of (filtered example_cfg (monitor_list example_world))
        = [(''a.com'', 1, ''http://other.a.com''), (''c.com'', 2, ''http://c.com'')]"
      by (simp add: example_world_def example_directory_def filtered_def managed_def
          example_monitor_def example_cfg_def entry_of_def)
    have in3: "(3, example_monitor ''b.com'' ''http://b.com'' ''http'' 2) \<in> set (monitor_list example_world)"
      and in4: "(4, example_monitor ''b.com'' ''http://b.com'' ''ping'' 1) \<in> set (monitor_list example_world)"
      by (simp_all add: example_world_def example_directory_def)
    have out3: "(3, example_monitor ''b.com'' ''http://b.com'' ''http'' 2)
          \<notin> set (filtered example_cfg (monitor_list example_world))"
      using t [THEN conjunct1, rule_format, of "(3, example_monitor ''b.com'' ''http://b.com'' ''http'' 2)"]
      by (simp add: example_monitor_def example_cfg_def)
    have out4: "(4, example_monitor ''b.com'' ''http://b.com'' ''ping'' 1)
          \<notin> set (filtered example_cfg (monitor_list example_world))"
      using t [THEN conjunct1, rule_format, of "(4, example_monitor ''b.com'' ''http://b.com'' ''ping'' 1)"]
      by (simp add: example_monitor_def example_cfg_def)
    have ex: "get_existing_monitors example_cfg example_world
          = Inr [(''a.com'', 1, ''http://other.a.com''), (''c.com'', 2, ''http://c.com'')]"
      using t n m f by auto
    have s: "same_run (filtered_world example_cfg example_world)
          (cmd_sync example_cfg example_env (filtered_world example_cfg example_world))
          example_world (cmd_sync example_cfg example_env example_world)"
      using t by blast
    from n m in3 out3 in4 out4 ex s show ?thesis
      by blast
  qed
  have second:
    "\<exists>ex. get_existing_monitors example_cfg duplicate_world = Inr ex
         \<and> set ex = {(''y.com'', 6, ''http://y.com''), (''x.com'', 7, ''http://x.com'')}"
  proof -
    note t = filter_decides_the_plan [of example_cfg duplicate_world example_env]
    have im: "entry_of ` set (effective example_cfg (monitor_list duplicate_world))
        = {(''y.com'', 6, ''http://y.com''), (''x.com'', 7, ''http://x.com'')}"
      unfolding duplicate_effective by (simp add: entry_of_def example_monitor_def)
    from t duplicate_facts(1) obtain ex where
      "get_existing_monitors example_cfg duplicate_world = Inr ex"
      "set ex = entry_of ` set (effective example_cfg (monitor_list duplicate_world))"
      by blast
    then show ?thesis
      unfolding im by blast
  qed
  from first second show ?thesis
    by blast
qed

lemma sync_loop_none_ok:
  assumes "\<forall>tr c r. remote e tr c = Returned r \<longrightarrow> \<not> r_ok r"
  shows "fst (sync_loop cfg e existing domains created w) = created"
proof (induction domains arbitrary: created w)
  case Nil
  show ?case by simp
next
  case (Cons d domains)
  obtain name url where d: "d = (name, url)" by (cases d)
  have "\<not> response_ok (fst (call_with_callback e c w))" for c
    using assms by (simp add: call_with_callback_eq split: sio_outcome.splits)
  then show ?case
    by (simp add: d create_monitor_eq Cons.IH)
qed

lemma confirm_loop_none_ok:
  assumes "\<forall>tr c r. remote e tr c = Returned r \<longrightarrow> \<not> r_ok r"
  shows "fst (confirm_loop e domains existing deleted w) = deleted"
proof (induction existing arbitrary: deleted w)
  case Nil
  show ?case by simp
next
  case (Cons x existing)
  obtain name monitor_id url where x: "x = (name, monitor_id, url)" by (cases x)
  have "\<not> response_ok (fst (call_with_callback e c w))" for c
    using assms by (simp add: call_with_callback_eq split: sio_outcome.splits)
  then show ?case
    by (simp add: x delete_monitor_eq Cons.IH)
qed

lemma create_calls_distinct:
  assumes "distinct (map fst D)"
  shows "distinct (map (create_call cfg) (create_set D ex))"
proof -
  have "distinct (filter (\<lambda>n. \<not> has_key ex n) (map fst D))"
    using assms by (rule distinct_filter)
  then have "distinct (map Some (map fst (create_set D ex)))"
    by (simp add: create_set_names distinct_map)
  then have "distinct (map created_name (map (create_call cfg) (create_set D ex)))"
    by (simp only: created_names_eq)
  then show ?thesis
    by (rule distinct_map [THEN iffD1, THEN conjunct1])
qed

lemma delete_calls_distinct:
  assumes "distinct (map fst ds)"
  shows "distinct (map delete_call ds)"
proof -
  have "map fst (map id_and_name ds) = map fst ds"
    by (induction ds) (simp_all add: id_and_name_def)
  moreover have "distinct (map Some (map fst ds))"
    by (subst distinct_map) (simp add: assms)
  ultimately have "distinct (map Some (map fst (map id_and_name ds)))"
    by (simp only:)
  then have "distinct (map deleted_id (map delete_call ds))"
    by (simp only: deleted_ids_eq)
  then show ?thesis
    by (rule distinct_map [THEN iffD1, THEN conjunct1])
qed

lemma load_domains_file: "domains_file e' = domains_file e \<Longrightarrow> load_domains e' = load_domains e"
  by (simp add: load_domains_def)

text \<open>
  C7. \<open>call_with_callback\<close> always returns to its caller: the response when
  \<open>sio.call\<close> returned one, \<open>None\<close> on a timeout and on any other exception, and it
  makes the call once. With the domains file loaded as \<open>D\<close> and a directory (with
  distinct identifiers) whose filtered monitors carry a name, \<open>cmd_sync\<close> and
  \<open>cmd_cleanup_confirm\<close> return normally whatever the remote service answers; their
  calls are the create calls of the missing names and the delete calls of the delete-set,
  no call occurs twice, and the calls are the same under any other behaviour of the remote
  service, so no answer makes an item be tried again or skipped. When no call is answered
  with ok (every call times out, say), they still run to the end and report zero.
\<close>

theorem rpc_failure_is_soft_and_final:
  assumes "load_domains e = Inr D" and "named cfg (monitor_list w)"
    and "distinct (map fst (monitor_list w))"
  shows "(\<forall>c v. call_with_callback e c v =
            (case remote e (trace v) c of
               Returned r \<Rightarrow> Some r | TimeoutError \<Rightarrow> None | OtherException \<Rightarrow> None,
             v\<lparr>trace := trace v @ [Call c]\<rparr>))
    \<and> (\<exists>created. fst (cmd_sync cfg e w) = Inr (Synced created (length D)))
    \<and> (\<exists>deleted. fst (cmd_cleanup_confirm cfg e w) = Inr (Removed deleted))
    \<and> new_actions w (snd (cmd_sync cfg e w)) =
        map (create_call cfg) (filter (\<lambda>d. fst d \<notin> set (managed_names cfg (monitor_list w))) D)
    \<and> (\<exists>ex. get_existing_monitors cfg w = Inr ex
          \<and> new_actions w (snd (cmd_cleanup_confirm cfg e w)) = map delete_call (delete_set D ex))
    \<and> distinct (new_actions w (snd (cmd_sync cfg e w)))
    \<and> distinct (new_actions w (snd (cmd_cleanup_confirm cfg e w)))
    \<and> (\<forall>e'. domains_file e' = domains_file e \<longrightarrow>
          new_actions w (snd (cmd_sync cfg e' w)) = new_actions w (snd (cmd_sync cfg e w))
          \<and> new_actions w (snd (cmd_cleanup_confirm cfg e' w))
              = new_actions w (snd (cmd_cleanup_confirm cfg e w)))
    \<and> ((\<forall>tr c r. remote e tr c = Returned r \<longrightarrow> \<not> r_ok r) \<longrightarrow>
          fst (cmd_sync cfg e w) = Inr (Synced 0 (length D))
          \<and> fst (cmd_cleanup_confirm cfg e w) = Inr (Removed 0))"
proof -
  obtain ex where ex: "get_existing_monitors cfg w = Inr ex"
    using assms(2) by (simp add: get_existing_monitors_eq)
  note D = assms(1)
  have sync: "new_actions w (snd (cmd_sync cfg e w)) = map (create_call cfg) (create_set D ex)"
    using D ex by (rule cmd_sync_actions)
  have conf: "new_actions w (snd (cmd_cleanup_confirm cfg e w)) = map delete_call (delete_set D ex)"
    using D ex by (rule cmd_cleanup_confirm_actions)
  have a: "\<forall>c v. call_with_callback e c v =
            (case remote e (trace v) c of
               Returned r \<Rightarrow> Some r | TimeoutError \<Rightarrow> None | OtherException \<Rightarrow> None,
             v\<lparr>trace := trace v @ [Call c]\<rparr>)"
    by (intro allI) (rule call_with_callback_eq)
  have b: "\<exists>created. fst (cmd_sync cfg e w) = Inr (Synced created (length D))"
    by (simp add: cmd_sync_eq [OF D ex])
  have c: "\<exists>deleted. fst (cmd_cleanup_confirm cfg e w) = Inr (Removed deleted)"
    by (simp add: cmd_cleanup_confirm_eq [OF D ex])
  have d: "new_actions w (snd (cmd_sync cfg e w)) =
        map (create_call cfg) (filter (\<lambda>d. fst d \<notin> set (managed_names cfg (monitor_list w))) D)"
    unfolding sync by (simp only: create_set_managed [OF ex])
  have f: "\<exists>ex. get_existing_monitors cfg w = Inr ex
          \<and> new_actions w (snd (cmd_cleanup_confirm cfg e w)) = map delete_call (delete_set D ex)"
    using ex conf by blast
  have g: "distinct (new_actions w (snd (cmd_sync cfg e w)))"
    unfolding sync using load_domains_distinct [OF D] by (rule create_calls_distinct)
  have h: "distinct (new_actions w (snd (cmd_cleanup_confirm cfg e w)))"
    unfolding conf using delete_set_ids_distinct [OF ex assms(3)] by (rule delete_calls_distinct)
  have i: "\<forall>e'. domains_file e' = domains_file e \<longrightarrow>
          new_actions w (snd (cmd_sync cfg e' w)) = new_actions w (snd (cmd_sync cfg e w))
          \<and> new_actions w (snd (cmd_cleanup_confirm cfg e' w))
              = new_actions w (snd (cmd_cleanup_confirm cfg e w))"
  proof (intro allI impI)
    fix e' :: env
    assume df: "domains_file e' = domains_file e"
    have D': "load_domains e' = Inr D"
      using load_domains_file [OF df] D by simp
    show "new_actions w (snd (cmd_sync cfg e' w)) = new_actions w (snd (cmd_sync cfg e w))
          \<and> new_actions w (snd (cmd_cleanup_confirm cfg e' w))
              = new_actions w (snd (cmd_cleanup_confirm cfg e w))"
      by (simp only: sync conf cmd_sync_actions [OF D' ex] cmd_cleanup_confirm_actions [OF D' ex])
  qed
  have j: "(\<forall>tr c r. remote e tr c = Returned r \<longrightarrow> \<not> r_ok r) \<longrightarrow>
          fst (cmd_sync cfg e w) = Inr (Synced 0 (length D))
          \<and> fst (cmd_cleanup_confirm cfg e w) = Inr (Removed 0)"
  proof
    assume r: "\<forall>tr c r. remote e tr c = Returned r \<longrightarrow> \<not> r_ok r"
    show "fst (cmd_sync cfg e w) = Inr (Synced 0 (length D))
          \<and> fst (cmd_cleanup_confirm cfg e w) = Inr (Removed 0)"
      by (simp add: cmd_sync_eq [OF D ex] cmd_cleanup_confirm_eq [OF D ex]
          sync_loop_none_ok [OF r] confirm_loop_none_ok [OF r])
  qed
  from a b c d f g h i j show ?thesis
    by blast
qed

theorem rpc_failure_is_soft_and_final_witness:
  "load_domains timeout_env = Inr [(''a.com'', ''http://new.a.com''), (''b.com'', ''http://b.com'')]
   \<and> named example_cfg (monitor_list example_world)
   \<and> distinct (map fst (monitor_list example_world))
   \<and> call_with_callback timeout_env (DeleteMonitor 2) example_world
       = (None, example_world\<lparr>trace := [Call (DeleteMonitor 2)]\<rparr>)
   \<and> fst (cmd_sync example_cfg timeout_env example_world) = Inr (Synced 0 2)
   \<and> new_actions example_world (snd (cmd_sync example_cfg timeout_env example_world))
       = [create_call example_cfg (''b.com'', ''http://b.com'')]
   \<and> fst (cmd_cleanup_confirm example_cfg timeout_env example_world) = Inr (Removed 0)
   \<and> distinct (new_actions example_world (snd (cmd_cleanup_confirm example_cfg timeout_env example_world)))"
proof -
  let ?D = "[(''a.com'', ''http://new.a.com''), (''b.com'', ''http://b.com'')]"
  have d: "load_domains timeout_env = Inr ?D"
    unfolding load_domains_def timeout_env_def example_env_def by code_simp
  have n: "named example_cfg (monitor_list example_world)"
    by (simp add: named_def example_world_def example_directory_def filtered_def managed_def
        example_monitor_def example_cfg_def)
  have i: "distinct (map fst (monitor_list example_world))"
    by (simp add: example_world_def example_directory_def)
  have m: "managed_names example_cfg (monitor_list example_world) = [''a.com'', ''c.com'']"
    by (simp add: managed_names_def example_world_def example_directory_def filtered_def managed_def
        example_monitor_def example_cfg_def entry_of_def)
  have r: "\<forall>tr c r. remote timeout_env tr c = Returned r \<longrightarrow> \<not> r_ok r"
    by (simp add: timeout_env_def)
  have tr: "trace example_world = []" "remote timeout_env [] (DeleteMonitor 2) = TimeoutError"
    by (simp_all add: example_world_def timeout_env_def)
  note t = rpc_failure_is_soft_and_final [OF d n i]
  have c: "call_with_callback timeout_env (DeleteMonitor 2) example_world
       = (None, example_world\<lparr>trace := [Call (DeleteMonitor 2)]\<rparr>)"
    using t [THEN conjunct1, rule_format, of "DeleteMonitor 2" example_world] tr by simp
  have s0: "new_actions example_world (snd (cmd_sync example_cfg timeout_env example_world))
       = map (create_call example_cfg)
           (filter (\<lambda>d. fst d \<notin> set (managed_names example_cfg (monitor_list example_world))) ?D)"
    using t by blast
  have s: "new_actions example_world (snd (cmd_sync example_cfg timeout_env example_world))
       = [create_call example_cfg (''b.com'', ''http://b.com'')]"
    unfolding s0 m by simp
  have z0: "(\<forall>tr c r. remote timeout_env tr c = Returned r \<longrightarrow> \<not> r_ok r) \<longrightarrow>
          fst (cmd_sync example_cfg timeout_env example_world) = Inr (Synced 0 (length ?D))
          \<and> fst (cmd_cleanup_confirm example_cfg timeout_env example_world) = Inr (Removed 0)"
    using t by blast
  have z: "fst (cmd_sync example_cfg timeout_env example_world) = Inr (Synced 0 2)
      \<and> fst (cmd_cleanup_confirm example_cfg timeout_env example_world) = Inr (Removed 0)"
    using z0 r by simp
  have q: "distinct (new_actions example_world (snd (cmd_cleanup_confirm example_cfg timeout_env example_world)))"
    using t by blast
  from d n i c s z q show ?thesis
    by blast
qed

section \<open>The dispatcher\<close>

lemma main_no_flag:
  "\<not> (a_sync a \<or> a_list a \<or> a_cleanup a \<or> a_cleanup_confirm a) \<Longrightarrow>
   main cfg e a w = (Inl (SystemExit 0), w\<lparr>trace := trace w @ [PrintHelp]\<rparr>)"
  by (simp add: main_def)

lemma main_flag:
  assumes "a_sync a \<or> a_list a \<or> a_cleanup a \<or> a_cleanup_confirm a"
  shows "main cfg e a w =
     (if connect_fails e then (Inl (SystemExit 1), connected w)
      else
        (case fst (authenticate cfg e (connected w)) of
           Inl err \<Rightarrow> (Inl err, snd (authenticate cfg e (connected w)))
         | Inr u \<Rightarrow>
             (fst (run_mode cfg e a (ready cfg e w)),
              (snd (run_mode cfg e a (ready cfg e w)))
                \<lparr>trace := trace (snd (run_mode cfg e a (ready cfg e w))) @ [Disconnect]\<rparr>)))"
proof -
  obtain r v where av: "authenticate cfg e (w\<lparr>trace := trace w @ [Connect]\<rparr>) = (r, v)"
    by (cases "authenticate cfg e (w\<lparr>trace := trace w @ [Connect]\<rparr>)")
  show ?thesis
    using assms
    by (cases r) (simp_all add: main_def connected_def ready_def av Let_def split_beta)
qed

lemma run_mode_one:
  assumes "a_sync a \<or> a_list a \<or> a_cleanup a \<or> a_cleanup_confirm a"
  shows "\<exists>cmd\<in>set [cmd_sync, cmd_list, cmd_cleanup_preview, cmd_cleanup_confirm].
           \<forall>v. run_mode cfg e a v = (map_sum id Some (fst (cmd cfg e v)), snd (cmd cfg e v))"
proof (cases "a_sync a")
  case True
  then have "\<forall>v. run_mode cfg e a v = (map_sum id Some (fst (cmd_sync cfg e v)), snd (cmd_sync cfg e v))"
    by (simp add: run_mode_def split_beta)
  then show ?thesis by simp
next
  case s: False
  show ?thesis
  proof (cases "a_list a")
    case True
    then have "\<forall>v. run_mode cfg e a v = (map_sum id Some (fst (cmd_list cfg e v)), snd (cmd_list cfg e v))"
      using s by (simp add: run_mode_def split_beta)
    then show ?thesis by simp
  next
    case l: False
    show ?thesis
    proof (cases "a_cleanup a")
      case True
      then have "\<forall>v. run_mode cfg e a v =
          (map_sum id Some (fst (cmd_cleanup_preview cfg e v)), snd (cmd_cleanup_preview cfg e v))"
        using s l by (simp add: run_mode_def split_beta)
      then show ?thesis by simp
    next
      case False
      then have "\<forall>v. run_mode cfg e a v =
          (map_sum id Some (fst (cmd_cleanup_confirm cfg e v)), snd (cmd_cleanup_confirm cfg e v))"
        using s l assms by (simp add: run_mode_def split_beta)
      then show ?thesis by simp
    qed
  qed
qed

text \<open>
  C8. With none of the four flags set, \<open>main\<close> prints the usage and leaves through
  \<open>sys.exit(0)\<close>: the exit status is 0 and the usage is the only action, so there is no
  connection attempt and no call. With a flag set, one of the four modes, and only that
  one, is run after connecting and authenticating, whatever other flags are set.
\<close>

theorem no_flag_prints_usage_one_mode_runs:
  "(\<not> (a_sync a \<or> a_list a \<or> a_cleanup a \<or> a_cleanup_confirm a) \<longrightarrow>
       main cfg e a w = (Inl (SystemExit 0), w\<lparr>trace := trace w @ [PrintHelp]\<rparr>)
       \<and> exit_status (fst (main cfg e a w)) = 0
       \<and> new_actions w (snd (main cfg e a w)) = [PrintHelp])
   \<and> (a_sync a \<or> a_list a \<or> a_cleanup a \<or> a_cleanup_confirm a \<longrightarrow>
        (\<exists>cmd\<in>set [cmd_sync, cmd_list, cmd_cleanup_preview, cmd_cleanup_confirm].
        main cfg e a w =
          (if connect_fails e then (Inl (SystemExit 1), connected w)
           else
             (case fst (authenticate cfg e (connected w)) of
                Inl err \<Rightarrow> (Inl err, snd (authenticate cfg e (connected w)))
              | Inr u \<Rightarrow>
                  (map_sum id Some (fst (cmd cfg e (ready cfg e w))),
                   (snd (cmd cfg e (ready cfg e w)))
                     \<lparr>trace := trace (snd (cmd cfg e (ready cfg e w))) @ [Disconnect]\<rparr>)))))"
proof -
  have one: "\<not> (a_sync a \<or> a_list a \<or> a_cleanup a \<or> a_cleanup_confirm a) \<longrightarrow>
       main cfg e a w = (Inl (SystemExit 0), w\<lparr>trace := trace w @ [PrintHelp]\<rparr>)
       \<and> exit_status (fst (main cfg e a w)) = 0
       \<and> new_actions w (snd (main cfg e a w)) = [PrintHelp]"
    by (simp add: main_no_flag new_actions_update)
  have two: "a_sync a \<or> a_list a \<or> a_cleanup a \<or> a_cleanup_confirm a \<longrightarrow>
        (\<exists>cmd\<in>set [cmd_sync, cmd_list, cmd_cleanup_preview, cmd_cleanup_confirm].
        main cfg e a w =
          (if connect_fails e then (Inl (SystemExit 1), connected w)
           else
             (case fst (authenticate cfg e (connected w)) of
                Inl err \<Rightarrow> (Inl err, snd (authenticate cfg e (connected w)))
              | Inr u \<Rightarrow>
                  (map_sum id Some (fst (cmd cfg e (ready cfg e w))),
                   (snd (cmd cfg e (ready cfg e w)))
                     \<lparr>trace := trace (snd (cmd cfg e (ready cfg e w))) @ [Disconnect]\<rparr>))))"
  proof
    assume flags: "a_sync a \<or> a_list a \<or> a_cleanup a \<or> a_cleanup_confirm a"
    from run_mode_one [OF flags, of cfg e] obtain cmd where
      c: "cmd \<in> set [cmd_sync, cmd_list, cmd_cleanup_preview, cmd_cleanup_confirm]"
      and r: "\<forall>v. run_mode cfg e a v = (map_sum id Some (fst (cmd cfg e v)), snd (cmd cfg e v))"
      by blast
    have "main cfg e a w =
          (if connect_fails e then (Inl (SystemExit 1), connected w)
           else
             (case fst (authenticate cfg e (connected w)) of
                Inl err \<Rightarrow> (Inl err, snd (authenticate cfg e (connected w)))
              | Inr u \<Rightarrow>
                  (map_sum id Some (fst (cmd cfg e (ready cfg e w))),
                   (snd (cmd cfg e (ready cfg e w)))
                     \<lparr>trace := trace (snd (cmd cfg e (ready cfg e w))) @ [Disconnect]\<rparr>)))"
      unfolding main_flag [OF flags] by (simp add: r split: sum.splits)
    with c show "\<exists>cmd\<in>set [cmd_sync, cmd_list, cmd_cleanup_preview, cmd_cleanup_confirm].
        main cfg e a w =
          (if connect_fails e then (Inl (SystemExit 1), connected w)
           else
             (case fst (authenticate cfg e (connected w)) of
                Inl err \<Rightarrow> (Inl err, snd (authenticate cfg e (connected w)))
              | Inr u \<Rightarrow>
                  (map_sum id Some (fst (cmd cfg e (ready cfg e w))),
                   (snd (cmd cfg e (ready cfg e w)))
                     \<lparr>trace := trace (snd (cmd cfg e (ready cfg e w))) @ [Disconnect]\<rparr>)))"
      by blast
  qed
  from one two show ?thesis by (rule conjI)
qed

theorem no_flag_prints_usage_one_mode_runs_witness:
  "\<not> (a_sync no_flags \<or> a_list no_flags \<or> a_cleanup no_flags \<or> a_cleanup_confirm no_flags)
   \<and> main example_cfg example_env no_flags (start_world None)
       = (Inl (SystemExit 0), (start_world None)\<lparr>trace := [PrintHelp]\<rparr>)
   \<and> exit_status (fst (main example_cfg example_env no_flags (start_world None))) = 0
   \<and> a_sync all_flags \<and> a_cleanup_confirm all_flags
   \<and> (\<exists>cmd\<in>set [cmd_sync, cmd_list, cmd_cleanup_preview, cmd_cleanup_confirm].
        main example_cfg example_env all_flags (start_world None) =
          (map_sum id Some (fst (cmd example_cfg example_env (ready example_cfg example_env (start_world None)))),
           (snd (cmd example_cfg example_env (ready example_cfg example_env (start_world None))))
             \<lparr>trace := trace (snd (cmd example_cfg example_env (ready example_cfg example_env (start_world None))))
                 @ [Disconnect]\<rparr>))"
proof -
  note t = no_flag_prints_usage_one_mode_runs [of no_flags example_cfg example_env "start_world None"]
  note u = no_flag_prints_usage_one_mode_runs [of all_flags example_cfg example_env "start_world None"]
  have n: "\<not> (a_sync no_flags \<or> a_list no_flags \<or> a_cleanup no_flags \<or> a_cleanup_confirm no_flags)"
    by (simp add: no_flags_def)
  have f: "a_sync all_flags" "a_cleanup_confirm all_flags"
    by (simp_all add: all_flags_def)
  have tr: "trace (start_world None) = []"
    by (simp add: start_world_def)
  have c: "\<not> connect_fails example_env"
    by (simp add: example_env_def)
  have na: "\<not> token_accepted example_env (connected (start_world None))"
    by (simp add: token_accepted_def load_jwt_def connected_def start_world_def)
  have cc: "credentials_configured example_cfg"
    by (simp add: credentials_configured_def example_cfg_def)
  have lr: "login_reply example_cfg example_env (connected (start_world None)) = Returned example_response"
    by (simp add: login_reply_def example_env_def)
  have a: "fst (authenticate example_cfg example_env (connected (start_world None))) = Inr ()"
    by (simp add: authenticate_fst na cc lr example_response_def)
  have one: "main example_cfg example_env no_flags (start_world None)
       = (Inl (SystemExit 0), (start_world None)\<lparr>trace := [PrintHelp]\<rparr>)
     \<and> exit_status (fst (main example_cfg example_env no_flags (start_world None))) = 0"
    using t [THEN conjunct1] n tr by simp
  have two: "\<exists>cmd\<in>set [cmd_sync, cmd_list, cmd_cleanup_preview, cmd_cleanup_confirm].
        main example_cfg example_env all_flags (start_world None) =
          (map_sum id Some (fst (cmd example_cfg example_env (ready example_cfg example_env (start_world None)))),
           (snd (cmd example_cfg example_env (ready example_cfg example_env (start_world None))))
             \<lparr>trace := trace (snd (cmd example_cfg example_env (ready example_cfg example_env (start_world None))))
                 @ [Disconnect]\<rparr>)"
    using u [THEN conjunct2] f c a by simp
  from n one f two show ?thesis
    by blast
qed

lemma load_domains_missing: "domains_file e = None \<Longrightarrow> load_domains e = Inl (SystemExit 1)"
  by (simp add: load_domains_def)

lemma run_mode_missing:
  assumes "domains_file e = None"
    and "a_sync a \<or> (\<not> a_list a \<and> (a_cleanup a \<or> a_cleanup_confirm a))"
  shows "run_mode cfg e a v = (Inl (SystemExit 1), v)"
  using assms(2)
  by (auto simp: run_mode_def cmd_sync_def cmd_cleanup_preview_def cmd_cleanup_confirm_def
      load_domains_missing [OF assms(1)])

lemma authenticate_exit:
  "fst (authenticate cfg e w) = Inr () \<or> fst (authenticate cfg e w) = Inl (SystemExit 1)"
  by (simp add: authenticate_fst split: sio_outcome.splits)

lemma authenticate_actions:
  "new_actions w (snd (authenticate cfg e w)) =
     token_call w @
       (if \<not> token_accepted e w \<and> credentials_configured cfg then [Call (login_call cfg)] else [])"
  by (rule new_actions_append) (rule authenticate_trace)

lemma authenticate_no_mutation:
  "filter is_mutation (new_actions w (snd (authenticate cfg e w))) = []"
  by (simp add: authenticate_actions token_call_def login_call_def split: option.splits)

lemma fold_on_monitor_list_trace: "trace (fold on_monitor_list ps w) = trace w"
  by (induction ps arbitrary: w) (simp_all add: on_monitor_list_def)

lemma ready_trace: "trace (ready cfg e w) = trace (snd (authenticate cfg e (connected w)))"
  by (simp add: ready_def fold_on_monitor_list_trace)

lemma trace_after_authenticate:
  "trace (snd (authenticate cfg e (connected w))) =
     trace w @ Connect # new_actions (connected w) (snd (authenticate cfg e (connected w)))"
  by (simp add: authenticate_actions authenticate_trace connected_def)

lemma missing_file_run:
  "fst (main example_cfg missing_env sync_flag (start_world None)) = Inl (SystemExit 1)
   \<and> trace (snd (main example_cfg missing_env sync_flag (start_world None)))
       = [Connect, Call (Login ''admin'' ''secret'' []), Disconnect]"
proof -
  let ?w = "start_world None"
  have flags: "a_sync sync_flag \<or> a_list sync_flag \<or> a_cleanup sync_flag \<or> a_cleanup_confirm sync_flag"
    and req: "a_sync sync_flag \<or> (\<not> a_list sync_flag \<and> (a_cleanup sync_flag \<or> a_cleanup_confirm sync_flag))"
    by (simp_all add: sync_flag_def)
  have d: "domains_file missing_env = None"
    by (simp add: missing_env_def)
  have c: "\<not> connect_fails missing_env"
    by (simp add: missing_env_def example_env_def)
  have l: "load_jwt (connected ?w) = None"
    by (simp add: load_jwt_def connected_def start_world_def)
  have na: "\<not> token_accepted missing_env (connected ?w)"
    by (simp add: token_accepted_def l)
  have tc: "token_call (connected ?w) = []"
    by (simp add: token_call_def l)
  have cc: "credentials_configured example_cfg"
    by (simp add: credentials_configured_def example_cfg_def)
  have lc: "login_call example_cfg = Login ''admin'' ''secret'' []"
    by (simp add: login_call_def example_cfg_def)
  have lr: "login_reply example_cfg missing_env (connected ?w) = Returned example_response"
    by (simp add: login_reply_def missing_env_def example_env_def)
  have tw: "trace (connected ?w) = [Connect]"
    by (simp add: connected_def start_world_def)
  have a: "fst (authenticate example_cfg missing_env (connected ?w)) = Inr ()"
    by (simp add: authenticate_fst na cc lr example_response_def)
  have t: "trace (snd (authenticate example_cfg missing_env (connected ?w)))
      = [Connect, Call (Login ''admin'' ''secret'' [])]"
    by (simp add: authenticate_trace na cc tc lc tw)
  have r: "run_mode example_cfg missing_env sync_flag (ready example_cfg missing_env ?w)
      = (Inl (SystemExit 1), ready example_cfg missing_env ?w)"
    using d req by (rule run_mode_missing)
  show ?thesis
    by (simp add: main_flag [OF flags] c a r ready_trace t)
qed

text \<open>
  C6, as the claim states it, fails: with the domains file missing and the sync mode
  selected, the process exits with status 1 only after it has connected and logged in.
\<close>

theorem missing_domains_file_counterexample:
  "domains_file missing_env = None \<and> a_sync sync_flag
   \<and> fst (main example_cfg missing_env sync_flag (start_world None)) = Inl (SystemExit 1)
   \<and> trace (snd (main example_cfg missing_env sync_flag (start_world None)))
       = [Connect, Call (Login ''admin'' ''secret'' []), Disconnect]"
  using missing_file_run by (simp add: missing_env_def sync_flag_def)

text \<open>
  C6, amended. When the domains file does not exist and a mode that reads it is selected
  (sync, or a cleanup mode when neither sync nor list is set), the process exits with
  status 1. The connection attempt comes first, and no create or delete call is made.
  When the connection and the authentication succeed, the missing file is found inside
  the selected mode: the actions are the connection attempt, the calls of the
  authentication and the disconnection.
\<close>

theorem missing_domains_file_exits_after_connecting:
  assumes "domains_file e = None"
    and "a_sync a \<or> (\<not> a_list a \<and> (a_cleanup a \<or> a_cleanup_confirm a))"
  shows "fst (main cfg e a w) = Inl (SystemExit 1)
     \<and> exit_status (fst (main cfg e a w)) = 1
     \<and> (\<exists>rest. new_actions w (snd (main cfg e a w)) = Connect # rest)
     \<and> filter is_mutation (new_actions w (snd (main cfg e a w))) = []
     \<and> (\<not> connect_fails e \<and> fst (authenticate cfg e (connected w)) = Inr () \<longrightarrow>
          new_actions w (snd (main cfg e a w)) =
            Connect # new_actions (connected w) (snd (authenticate cfg e (connected w))) @ [Disconnect])"
proof -
  have flags: "a_sync a \<or> a_list a \<or> a_cleanup a \<or> a_cleanup_confirm a"
    using assms(2) by blast
  let ?au = "authenticate cfg e (connected w)"
  let ?acts = "new_actions (connected w) (snd ?au)"
  note rm = run_mode_missing [OF assms, of cfg "ready cfg e w"]
  have nm: "filter is_mutation ?acts = []"
    by (rule authenticate_no_mutation)
  show ?thesis
  proof (cases "connect_fails e")
    case True
    then have m: "main cfg e a w = (Inl (SystemExit 1), connected w)"
      by (simp add: main_flag [OF flags])
    have "new_actions w (connected w) = [Connect]"
      unfolding connected_def by (rule new_actions_update)
    then show ?thesis
      using True by (simp add: m)
  next
    case cf: False
    show ?thesis
    proof (cases "fst ?au = Inr ()")
      case True
      then have m: "main cfg e a w =
          (Inl (SystemExit 1), (ready cfg e w)\<lparr>trace := trace (ready cfg e w) @ [Disconnect]\<rparr>)"
        using cf by (simp add: main_flag [OF flags] rm)
      have "trace ((ready cfg e w)\<lparr>trace := trace (ready cfg e w) @ [Disconnect]\<rparr>)
          = trace w @ (Connect # ?acts @ [Disconnect])"
        by (simp add: ready_trace trace_after_authenticate)
      then have "new_actions w ((ready cfg e w)\<lparr>trace := trace (ready cfg e w) @ [Disconnect]\<rparr>)
          = Connect # ?acts @ [Disconnect]"
        by (rule new_actions_append)
      then show ?thesis
        using nm by (simp add: m)
    next
      case False
      then have ex: "fst ?au = Inl (SystemExit 1)"
        using authenticate_exit [of cfg e "connected w"] by blast
      then have m: "main cfg e a w = (Inl (SystemExit 1), snd ?au)"
        using cf by (simp add: main_flag [OF flags])
      have "new_actions w (snd ?au) = Connect # ?acts"
        by (rule new_actions_append) (rule trace_after_authenticate)
      then show ?thesis
        using nm False by (simp add: m)
    qed
  qed
qed

theorem missing_domains_file_exits_after_connecting_witness:
  "domains_file missing_env = None \<and> a_sync sync_flag
   \<and> \<not> connect_fails missing_env
   \<and> fst (authenticate example_cfg missing_env (connected (start_world None))) = Inr ()
   \<and> fst (main example_cfg missing_env sync_flag (start_world None)) = Inl (SystemExit 1)
   \<and> exit_status (fst (main example_cfg missing_env sync_flag (start_world None))) = 1
   \<and> filter is_mutation
        (new_actions (start_world None) (snd (main example_cfg missing_env sync_flag (start_world None)))) = []
   \<and> new_actions (start_world None) (snd (main example_cfg missing_env sync_flag (start_world None)))
       = Connect # new_actions (connected (start_world None))
           (snd (authenticate example_cfg missing_env (connected (start_world None)))) @ [Disconnect]"
proof -
  let ?w = "start_world None"
  have d: "domains_file missing_env = None"
    by (simp add: missing_env_def)
  have s: "a_sync sync_flag"
    by (simp add: sync_flag_def)
  then have req: "a_sync sync_flag \<or> (\<not> a_list sync_flag \<and> (a_cleanup sync_flag \<or> a_cleanup_confirm sync_flag))"
    by simp
  have c: "\<not> connect_fails missing_env"
    by (simp add: missing_env_def example_env_def)
  have na: "\<not> token_accepted missing_env (connected ?w)"
    by (simp add: token_accepted_def load_jwt_def connected_def start_world_def)
  have cc: "credentials_configured example_cfg"
    by (simp add: credentials_configured_def example_cfg_def)
  have lr: "login_reply example_cfg missing_env (connected ?w) = Returned example_response"
    by (simp add: login_reply_def missing_env_def example_env_def)
  have a: "fst (authenticate example_cfg missing_env (connected ?w)) = Inr ()"
    by (simp add: authenticate_fst na cc lr example_response_def)
  show ?thesis
    using missing_domains_file_exits_after_connecting [OF d req, of example_cfg ?w] d s c a
    by blast
qed

end
